theory Spec2Isabelle
  imports Main "HOL-Library.Sublist"
begin

section \<open>PixelKit v2: the platform as the code sees it\<close>

text \<open>
  The two source files are \<^verbatim>\<open>lib - CircuitPython/pixelkit.py\<close> (class \<^verbatim>\<open>PixelKit\<close>) and
  \<^verbatim>\<open>lib/pausebutton.py\<close> (class \<^verbatim>\<open>PauseButton\<close>). Both run on CircuitPython and use
  the modules \<^verbatim>\<open>board\<close>, \<^verbatim>\<open>digitalio\<close>, \<^verbatim>\<open>analogio\<close>, \<^verbatim>\<open>neopixel\<close> and the file system.
  Those modules are not part of the repository, so the model takes them as parameters,
  collected in the record \<open>world\<close> below:
  \<^item> \<open>board\<close>: the pin table of the board, from attribute name to pin object
    (\<^verbatim>\<open>getattr(board, name)\<close> raises \<^verbatim>\<open>AttributeError\<close> where the table has no entry);
  \<^item> \<open>files\<close>: the file system, from file name to content (\<^verbatim>\<open>open\<close> raises
    \<^verbatim>\<open>OSError\<close> where there is no file);
  \<^item> \<open>dio_fault\<close>, \<open>ain_fault\<close>: the pins on which the platform refuses
    \<^verbatim>\<open>digitalio.DigitalInOut(pin)\<close> or \<^verbatim>\<open>analogio.AnalogIn(pin)\<close> by raising;
  \<^item> \<open>dio_value\<close>, \<open>ain_value\<close>: what the attribute \<^verbatim>\<open>.value\<close> of a handle reads at
    this moment (the caller of a poll step supplies the world, so the levels may change
    between two steps, and stay put within one).

  Everything the code changes is in the world as well: the objects created by the two
  constructors (a handle is the index of its object, so two handles are the identical
  instance iff they are equal), the two class-level registries of \<^verbatim>\<open>PixelKit\<close>, and a
  trace of the calls that leave the program (constructor calls, reads of \<^verbatim>\<open>.value\<close>,
  \<^verbatim>\<open>print\<close>, \<^verbatim>\<open>fill\<close>, \<^verbatim>\<open>show\<close>, and the event hooks \<^verbatim>\<open>on_...\<close>).
\<close>

datatype pin = Pin nat

type_synonym handle = nat

datatype Direction = INPUT | OUTPUT

datatype Pull = UP | DOWN

datatype exn = OSError | AttributeError | ValueError | HardwareError | SystemExit

datatype print_arg = Str string | Exc exn

datatype event =
    Print "print_arg list"
  | New_NeoPixel pin nat
  | New_PixelFramebuffer nat nat
  | New_DigitalInOut pin
  | New_AnalogIn pin
  | Get_dio_value handle
  | Get_ain_value handle
  | Call string "int option"
  | Fill "nat \<times> nat \<times> nat"
  | Show

record world =
  board :: "string \<Rightarrow> pin option"
  files :: "string \<Rightarrow> string option"
  dio_fault :: "pin \<Rightarrow> bool"
  ain_fault :: "pin \<Rightarrow> bool"
  dio_value :: "handle \<Rightarrow> bool"
  ain_value :: "handle \<Rightarrow> int"
  dio_count :: nat
  dio_pin :: "handle \<Rightarrow> pin"
  dio_direction :: "handle \<Rightarrow> Direction"
  dio_pull :: "handle \<Rightarrow> Pull option"
  ain_count :: nat
  ain_pin :: "handle \<Rightarrow> pin"
  dio_registry :: "pin \<Rightarrow> handle option"
  ain_registry :: "pin \<Rightarrow> handle option"
  trace :: "event list"

subsection \<open>Outcomes: a value, or a raised exception, with the state reached\<close>

datatype 'a result = Ok 'a | Raise exn

type_synonym ('a, 's) prog = "'s \<Rightarrow> 'a result \<times> 's"

definition ret :: "'a \<Rightarrow> ('a, 's) prog" where
  "ret x s = (Ok x, s)"

definition raise :: "exn \<Rightarrow> ('a, 's) prog" where
  "raise e s = (Raise e, s)"

text \<open>Statement sequencing: an exception of the first statement skips the rest.\<close>

definition seq :: "('a, 's) prog \<Rightarrow> ('a \<Rightarrow> ('b, 's) prog) \<Rightarrow> ('b, 's) prog" where
  "seq m f s = (case m s of (Ok x, s') \<Rightarrow> f x s' | (Raise e, s') \<Rightarrow> (Raise e, s'))"

text \<open>
  \<^verbatim>\<open>try: m  except C1: h1  except C2: h2\<close>: the first handler whose class matches the
  exception runs; an exception that matches none goes on to the caller.
\<close>

fun handle_exn :: "((exn \<Rightarrow> bool) \<times> (exn \<Rightarrow> ('a, 's) prog)) list \<Rightarrow> exn \<Rightarrow> ('a, 's) prog" where
  "handle_exn [] e = raise e"
| "handle_exn ((c, h) # hs) e = (if c e then h e else handle_exn hs e)"

definition try_except :: "('a, 's) prog \<Rightarrow> ((exn \<Rightarrow> bool) \<times> (exn \<Rightarrow> ('a, 's) prog)) list \<Rightarrow> ('a, 's) prog" where
  "try_except m hs s = (case m s of (Ok x, s') \<Rightarrow> (Ok x, s') | (Raise e, s') \<Rightarrow> handle_exn hs e s')"

text \<open>\<^verbatim>\<open>SystemExit\<close> derives from \<^verbatim>\<open>BaseException\<close> only; the others from \<^verbatim>\<open>Exception\<close>.\<close>

definition is_Exception :: "exn \<Rightarrow> bool" where
  "is_Exception e = (e \<noteq> SystemExit)"

definition is_OSError :: "exn \<Rightarrow> bool" where
  "is_OSError e = (e = OSError)"

definition is_AttributeError :: "exn \<Rightarrow> bool" where
  "is_AttributeError e = (e = AttributeError)"

definition emit :: "event \<Rightarrow> (unit, world) prog" where
  "emit ev w = (Ok (), w\<lparr>trace := trace w @ [ev]\<rparr>)"

definition print :: "print_arg list \<Rightarrow> (unit, world) prog" where
  "print args = emit (Print args)"

subsection \<open>Strings: \<^verbatim>\<open>readline\<close>, \<^verbatim>\<open>strip\<close>, \<^verbatim>\<open>split\<close>, \<^verbatim>\<open>upper\<close>\<close>

text \<open>
  Strings are byte strings and the operations are CircuitPython's, which work on ASCII:
  \<^verbatim>\<open>strip\<close> removes blank, tab, line feed, vertical tab, form feed and carriage return,
  and \<^verbatim>\<open>upper\<close> maps \<^verbatim>\<open>a\<close>..\<^verbatim>\<open>z\<close> to \<^verbatim>\<open>A\<close>..\<^verbatim>\<open>Z\<close>.
\<close>

fun readline :: "string \<Rightarrow> string" where
  "readline [] = []"
| "readline (c # cs) = (if c = CHR 0x0A then [c] else c # readline cs)"

definition is_space :: "char \<Rightarrow> bool" where
  "is_space c = (c \<in> set [CHR '' '', CHR 0x09, CHR 0x0A, CHR 0x0B, CHR 0x0C, CHR 0x0D])"

definition strip :: "string \<Rightarrow> string" where
  "strip s = rev (dropWhile is_space (rev (dropWhile is_space s)))"

fun split :: "char \<Rightarrow> string \<Rightarrow> string list" where
  "split sep [] = [[]]"
| "split sep (c # cs) =
     (if c = sep then [] # split sep cs
      else (case split sep cs of [] \<Rightarrow> [[c]] | p # ps \<Rightarrow> (c # p) # ps))"

definition upper_char :: "char \<Rightarrow> char" where
  "upper_char c =
     (case map_of (zip ''abcdefghijklmnopqrstuvwxyz'' ''ABCDEFGHIJKLMNOPQRSTUVWXYZ'') c of
        None \<Rightarrow> c
      | Some u \<Rightarrow> u)"

definition upper :: "string \<Rightarrow> string" where
  "upper s = map upper_char s"

subsection \<open>The platform: \<^verbatim>\<open>board\<close>, files, \<^verbatim>\<open>digitalio\<close>, \<^verbatim>\<open>analogio\<close>\<close>

definition board_getattr :: "string \<Rightarrow> (pin, world) prog" where
  "board_getattr name w =
     (case board w name of None \<Rightarrow> (Raise AttributeError, w) | Some p \<Rightarrow> (Ok p, w))"

text \<open>\<^verbatim>\<open>with open(filename) as f: ... f.readline()\<close>\<close>

definition open_readline :: "string \<Rightarrow> (string, world) prog" where
  "open_readline filename w =
     (case files w filename of
        None \<Rightarrow> (Raise OSError, w)
      | Some content \<Rightarrow> (Ok (readline content), w))"

text \<open>
  \<^verbatim>\<open>digitalio.DigitalInOut(pin)\<close>: raises where the platform refuses the pin, and else
  makes a new object (an input without pull, as the platform documents it).
\<close>

definition DigitalInOut :: "pin \<Rightarrow> (handle, world) prog" where
  "DigitalInOut p w =
     (if dio_fault w p then (Raise HardwareError, w)
      else (Ok (dio_count w),
            w\<lparr>dio_count := Suc (dio_count w),
              dio_pin := (dio_pin w)(dio_count w := p),
              dio_direction := (dio_direction w)(dio_count w := INPUT),
              dio_pull := (dio_pull w)(dio_count w := None),
              trace := trace w @ [New_DigitalInOut p]\<rparr>))"

definition AnalogIn :: "pin \<Rightarrow> (handle, world) prog" where
  "AnalogIn p w =
     (if ain_fault w p then (Raise HardwareError, w)
      else (Ok (ain_count w),
            w\<lparr>ain_count := Suc (ain_count w),
              ain_pin := (ain_pin w)(ain_count w := p),
              trace := trace w @ [New_AnalogIn p]\<rparr>))"

text \<open>\<^verbatim>\<open>dio.direction = d\<close> and \<^verbatim>\<open>dio.pull = p\<close>, as attribute stores.\<close>

definition set_direction :: "handle \<Rightarrow> Direction \<Rightarrow> (unit, world) prog" where
  "set_direction h d w = (Ok (), w\<lparr>dio_direction := (dio_direction w)(h := d)\<rparr>)"

definition set_pull :: "handle \<Rightarrow> Pull option \<Rightarrow> (unit, world) prog" where
  "set_pull h p w = (Ok (), w\<lparr>dio_pull := (dio_pull w)(h := p)\<rparr>)"

text \<open>\<^verbatim>\<open>dio.value\<close> and \<^verbatim>\<open>ain.value\<close>: a read of the level, recorded in the trace.\<close>

definition get_dio_value :: "handle \<Rightarrow> (bool, world) prog" where
  "get_dio_value h w = (Ok (dio_value w h), w\<lparr>trace := trace w @ [Get_dio_value h]\<rparr>)"

definition get_ain_value :: "handle \<Rightarrow> (int, world) prog" where
  "get_ain_value h w = (Ok (ain_value w h), w\<lparr>trace := trace w @ [Get_ain_value h]\<rparr>)"

section \<open>\<^verbatim>\<open>PixelKit\<close>: the pin registries\<close>

text \<open>
  \<^verbatim>\<open>PixelKit._dio_registry\<close> and \<^verbatim>\<open>PixelKit._ain_registry\<close> are class attributes: one
  dictionary each for the whole process. \<^verbatim>\<open>_init_dio\<close> and \<^verbatim>\<open>_init_ain\<close> do not use
  \<^verbatim>\<open>self\<close>.
\<close>

definition dio_registry_store :: "pin \<Rightarrow> handle \<Rightarrow> (unit, world) prog" where
  "dio_registry_store p h w = (Ok (), w\<lparr>dio_registry := (dio_registry w)(p \<mapsto> h)\<rparr>)"

definition ain_registry_store :: "pin \<Rightarrow> handle \<Rightarrow> (unit, world) prog" where
  "ain_registry_store p h w = (Ok (), w\<lparr>ain_registry := (ain_registry w)(p \<mapsto> h)\<rparr>)"

definition init_dio :: "handle option \<Rightarrow> pin \<Rightarrow> (handle, world) prog" where
  "init_dio instance board_pin w =
     (case instance of
        Some i \<Rightarrow> (Ok i, w)
      | None \<Rightarrow>
          (case dio_registry w board_pin of
             Some h \<Rightarrow> (Ok h, w)
           | None \<Rightarrow>
               seq (DigitalInOut board_pin) (\<lambda>dio.
               seq (set_direction dio INPUT) (\<lambda>_.
               seq (set_pull dio (Some UP)) (\<lambda>_.
               seq (dio_registry_store board_pin dio) (\<lambda>_.
               ret dio)))) w))"

definition init_ain :: "handle option \<Rightarrow> pin \<Rightarrow> (handle, world) prog" where
  "init_ain instance board_pin w =
     (case instance of
        Some i \<Rightarrow> (Ok i, w)
      | None \<Rightarrow>
          (case ain_registry w board_pin of
             Some h \<Rightarrow> (Ok h, w)
           | None \<Rightarrow>
               seq (AnalogIn board_pin) (\<lambda>ain.
               seq (ain_registry_store board_pin ain) (\<lambda>_.
               ret ain)) w))"

section \<open>\<^verbatim>\<open>PixelKit._load_pause_from_file\<close>\<close>

definition load_pause_from_file :: "string \<Rightarrow> (handle option, world) prog" where
  "load_pause_from_file filename =
     try_except
       (seq (open_readline filename) (\<lambda>l.
          let line = strip l in
          if line = [] then
            seq (print [Str ''Pause config empty -> no pause button'']) (\<lambda>_. ret None)
          else
            let parts = map strip (split CHR '','' line) in
            if length parts \<noteq> 2 then
              seq (print [Str ''Pause config malformed -> no pause button'']) (\<lambda>_. ret None)
            else
              let pin_name = parts ! 0; direction = upper (parts ! 1) in
              seq (try_except
                     (seq (board_getattr pin_name) (\<lambda>pin_obj. ret (Some pin_obj)))
                     [(is_AttributeError, \<lambda>_.
                        seq (print [Str ''Pause config pin not found on this board:'', Str pin_name])
                          (\<lambda>_. ret None))])
                (\<lambda>found.
                   case found of
                     None \<Rightarrow> ret None
                   | Some pin_obj \<Rightarrow>
                       seq (init_dio None pin_obj) (\<lambda>dio.
                       seq (if direction = ''IN'' then
                              seq (set_direction dio INPUT) (\<lambda>_.
                              seq (set_pull dio (Some UP)) (\<lambda>_. ret True))
                            else if direction = ''OUT'' then
                              seq (set_direction dio OUTPUT) (\<lambda>_. ret True)
                            else
                              seq (print [Str ''Pause config invalid direction:'', Str direction])
                                (\<lambda>_. ret False))
                         (\<lambda>valid.
                            if \<not> valid then ret None
                            else
                              seq (print [Str ''Pause button from config:'', Str pin_name, Str direction])
                                (\<lambda>_. ret (Some dio)))))))
       [(is_OSError, \<lambda>_. ret None),
        (is_Exception, \<lambda>e. seq (print [Str ''Pause config error:'', Exc e]) (\<lambda>_. ret None))]"

section \<open>\<^verbatim>\<open>PixelKit\<close>: the object and its constructor\<close>

text \<open>
  The instance attributes of a \<^verbatim>\<open>PixelKit\<close>. The seven attributes \<^verbatim>\<open>is_pressing_...\<close> are
  read and written through \<^verbatim>\<open>getattr\<close> and \<^verbatim>\<open>setattr\<close> with a computed name, so they
  are kept as the dictionary \<open>flags\<close> from attribute name to value. The pixel strip and
  the frame buffer are objects of the platform; their calls appear in the trace.
\<close>

record PixelKit =
  pause :: "handle option"
  button_A :: handle
  button_B :: handle
  button_reset :: handle
  joystick_up :: handle
  joystick_down :: handle
  joystick_left :: handle
  joystick_right :: handle
  joystick_click :: handle
  dial :: handle
  microphone :: handle
  dial_value :: int
  microphone_value :: int
  flags :: "string \<Rightarrow> bool option"

text \<open>The keyword arguments of \<^verbatim>\<open>PixelKit.__init__\<close>; \<open>None\<close> is Python's \<^verbatim>\<open>None\<close>.\<close>

record PixelKit_args =
  arg_pause :: "handle option"
  arg_button_A :: "handle option"
  arg_button_B :: "handle option"
  arg_button_reset :: "handle option"
  arg_joystick_up :: "handle option"
  arg_joystick_down :: "handle option"
  arg_joystick_left :: "handle option"
  arg_joystick_right :: "handle option"
  arg_joystick_click :: "handle option"
  arg_dial :: "handle option"
  arg_microphone :: "handle option"
  pause_config_file :: string

definition default_args :: PixelKit_args where
  "default_args =
     \<lparr>arg_pause = None, arg_button_A = None, arg_button_B = None, arg_button_reset = None,
      arg_joystick_up = None, arg_joystick_down = None, arg_joystick_left = None,
      arg_joystick_right = None, arg_joystick_click = None, arg_dial = None,
      arg_microphone = None, pause_config_file = ''pausebutton_pin_config.txt''\<rparr>"

definition initial_flags :: "string \<Rightarrow> bool option" where
  "initial_flags =
     Map.empty(''is_pressing_up'' \<mapsto> False, ''is_pressing_down'' \<mapsto> False,
       ''is_pressing_left'' \<mapsto> False, ''is_pressing_right'' \<mapsto> False,
       ''is_pressing_click'' \<mapsto> False, ''is_pressing_a'' \<mapsto> False,
       ''is_pressing_b'' \<mapsto> False)"

definition PixelKit_init :: "PixelKit_args \<Rightarrow> (PixelKit, world) prog" where
  "PixelKit_init a =
     seq (board_getattr ''D4'') (\<lambda>d4.
     seq (emit (New_NeoPixel d4 128)) (\<lambda>_.
     seq (emit (New_PixelFramebuffer 16 8)) (\<lambda>_.
     seq (case arg_pause a of
            Some p \<Rightarrow> ret (Some p)
          | None \<Rightarrow> load_pause_from_file (pause_config_file a)) (\<lambda>pause_v.
     seq (board_getattr ''D18'') (\<lambda>d18. seq (init_dio (arg_button_A a) d18) (\<lambda>button_A_v.
     seq (board_getattr ''D23'') (\<lambda>d23. seq (init_dio (arg_button_B a) d23) (\<lambda>button_B_v.
     seq (board_getattr ''D5'') (\<lambda>d5. seq (init_dio (arg_button_reset a) d5) (\<lambda>button_reset_v.
     seq (board_getattr ''D35'') (\<lambda>d35. seq (init_dio (arg_joystick_up a) d35) (\<lambda>joystick_up_v.
     seq (board_getattr ''D34'') (\<lambda>d34. seq (init_dio (arg_joystick_down a) d34) (\<lambda>joystick_down_v.
     seq (board_getattr ''D26'') (\<lambda>d26. seq (init_dio (arg_joystick_left a) d26) (\<lambda>joystick_left_v.
     seq (board_getattr ''D25'') (\<lambda>d25. seq (init_dio (arg_joystick_right a) d25) (\<lambda>joystick_right_v.
     seq (board_getattr ''D27'') (\<lambda>d27. seq (init_dio (arg_joystick_click a) d27) (\<lambda>joystick_click_v.
     seq (board_getattr ''VP'') (\<lambda>vp. seq (init_ain (arg_dial a) vp) (\<lambda>dial_v.
     seq (board_getattr ''VN'') (\<lambda>vn. seq (init_ain (arg_microphone a) vn) (\<lambda>microphone_v.
     seq (get_ain_value dial_v) (\<lambda>dial_value_v.
     seq (get_ain_value microphone_v) (\<lambda>microphone_value_v.
     ret \<lparr>pause = pause_v, button_A = button_A_v, button_B = button_B_v,
          button_reset = button_reset_v, joystick_up = joystick_up_v,
          joystick_down = joystick_down_v, joystick_left = joystick_left_v,
          joystick_right = joystick_right_v, joystick_click = joystick_click_v,
          dial = dial_v, microphone = microphone_v, dial_value = dial_value_v,
          microphone_value = microphone_value_v,
          flags = initial_flags\<rparr>))))))))))))))))))))))))))"

section \<open>\<^verbatim>\<open>PixelKit\<close>: input scanning\<close>

text \<open>
  The methods below change \<^verbatim>\<open>self\<close> and the world, so their state is the pair of both.
\<close>

type_synonym 'a kit_prog = "('a, PixelKit \<times> world) prog"

definition in_world :: "('a, world) prog \<Rightarrow> 'a kit_prog" where
  "in_world m s = (case s of (self, w) \<Rightarrow> (case m w of (r, w') \<Rightarrow> (r, (self, w'))))"

definition with_self :: "(PixelKit \<Rightarrow> 'a kit_prog) \<Rightarrow> 'a kit_prog" where
  "with_self f s = f (fst s) s"

text \<open>
  The event hooks \<^verbatim>\<open>on_...\<close> of the class. A hook is there to be overridden; the hooks of
  \<^verbatim>\<open>PixelKit\<close> itself return \<^verbatim>\<open>False\<close> and change nothing, and no caller uses the value.
  A call of a hook is recorded in the trace with its argument.
\<close>

definition event_hooks :: "string list" where
  "event_hooks =
     [''on_joystick_up'', ''on_joystick_down'', ''on_joystick_left'', ''on_joystick_right'',
      ''on_joystick_click'', ''on_button_a'', ''on_button_b'', ''on_dial'', ''on_microphone'']"

definition getattr_hook :: "string \<Rightarrow> string kit_prog" where
  "getattr_hook name = (if name \<in> set event_hooks then ret name else raise AttributeError)"

definition call_hook :: "string \<Rightarrow> int option \<Rightarrow> unit kit_prog" where
  "call_hook name arg = in_world (emit (Call name arg))"

definition getattr_flag :: "string \<Rightarrow> bool kit_prog" where
  "getattr_flag attr s =
     (case flags (fst s) attr of None \<Rightarrow> (Raise AttributeError, s) | Some v \<Rightarrow> (Ok v, s))"

definition setattr_flag :: "string \<Rightarrow> bool \<Rightarrow> unit kit_prog" where
  "setattr_flag attr v s =
     (case s of (self, w) \<Rightarrow> (Ok (), (self\<lparr>flags := (flags self)(attr \<mapsto> v)\<rparr>, w)))"

text \<open>
  \<^verbatim>\<open>_check_digital\<close>. The condition of the \<^verbatim>\<open>if\<close> reads \<^verbatim>\<open>dio.value\<close>; where it is false,
  the condition of the \<^verbatim>\<open>elif\<close> reads \<^verbatim>\<open>dio.value\<close> again.
\<close>

definition check_digital :: "handle \<Rightarrow> string \<Rightarrow> bool \<Rightarrow> unit kit_prog" where
  "check_digital dio name is_joystick =
     (let state_attr = ''is_pressing_'' @ name in
      seq (getattr_hook (''on_'' @ (if is_joystick then ''joystick_'' else ''button_'') @ name))
        (\<lambda>event_method.
      seq (getattr_flag state_attr) (\<lambda>pressing.
      seq (in_world (get_dio_value dio)) (\<lambda>v.
        if \<not> v \<and> \<not> pressing then
          seq (setattr_flag state_attr True) (\<lambda>_. call_hook event_method None)
        else
          seq (in_world (get_dio_value dio)) (\<lambda>v'.
            if v' \<and> pressing then setattr_flag state_attr False else ret ())))))"

definition check_joystick :: "unit kit_prog" where
  "check_joystick =
     seq (with_self (\<lambda>self. check_digital (joystick_up self) ''up'' True)) (\<lambda>_.
     seq (with_self (\<lambda>self. check_digital (joystick_down self) ''down'' True)) (\<lambda>_.
     seq (with_self (\<lambda>self. check_digital (joystick_left self) ''left'' True)) (\<lambda>_.
     seq (with_self (\<lambda>self. check_digital (joystick_right self) ''right'' True)) (\<lambda>_.
     with_self (\<lambda>self. check_digital (joystick_click self) ''click'' True)))))"

definition check_buttons :: "unit kit_prog" where
  "check_buttons =
     seq (with_self (\<lambda>self. check_digital (button_A self) ''a'' False)) (\<lambda>_.
     with_self (\<lambda>self. check_digital (button_B self) ''b'' False))"

definition check_dial :: "unit kit_prog" where
  "check_dial =
     seq (with_self (\<lambda>self. in_world (get_ain_value (dial self)))) (\<lambda>new_value.
     with_self (\<lambda>self.
       if new_value \<noteq> dial_value self then
         seq (\<lambda>s. case s of (self, w) \<Rightarrow> (Ok (), (self\<lparr>dial_value := new_value\<rparr>, w))) (\<lambda>_.
         call_hook ''on_dial'' (Some new_value))
       else ret ()))"

definition check_microphone :: "unit kit_prog" where
  "check_microphone =
     seq (with_self (\<lambda>self. in_world (get_ain_value (microphone self)))) (\<lambda>new_value.
     with_self (\<lambda>self.
       if new_value \<noteq> microphone_value self then
         seq (\<lambda>s. case s of (self, w) \<Rightarrow> (Ok (), (self\<lparr>microphone_value := new_value\<rparr>, w))) (\<lambda>_.
         call_hook ''on_microphone'' (Some new_value))
       else ret ()))"

text \<open>
  \<^verbatim>\<open>_update_pause\<close>. \<^verbatim>\<open>self.pause\<close> is \<^verbatim>\<open>None\<close> or a handle, and a handle counts as true.
  \<^verbatim>\<open>sys.exit()\<close> raises \<^verbatim>\<open>SystemExit\<close>.
\<close>

definition update_pause :: "unit kit_prog" where
  "update_pause =
     with_self (\<lambda>self.
       case pause self of
         None \<Rightarrow> ret ()
       | Some p \<Rightarrow>
           seq (in_world (get_dio_value p)) (\<lambda>v.
             if \<not> v then
               seq (in_world (emit (Fill (0, 0, 0)))) (\<lambda>_.
               seq (in_world (emit Show)) (\<lambda>_.
               seq (in_world (print [Str ''Pause pressed -> exiting''])) (\<lambda>_.
               raise SystemExit)))
             else ret ()))"

definition check_controls :: "unit kit_prog" where
  "check_controls =
     seq check_joystick (\<lambda>_.
     seq check_buttons (\<lambda>_.
     seq check_dial (\<lambda>_.
     seq check_microphone (\<lambda>_.
     update_pause))))"

section \<open>\<^verbatim>\<open>PauseButton\<close>\<close>

text \<open>
  \<^verbatim>\<open>leds\<close> is \<^verbatim>\<open>None\<close> or a pixel strip, given here by its number of pixels: Python
  takes an object with a length as true iff the length is not 0.
\<close>

record PauseButton =
  leds :: "nat option"
  paused :: bool
  button :: "handle option"

definition truthy_leds :: "nat option \<Rightarrow> bool" where
  "truthy_leds l = (case l of None \<Rightarrow> False | Some n \<Rightarrow> n \<noteq> 0)"



definition PauseButton_update :: "PauseButton \<Rightarrow> (unit, world) prog" where
  "PauseButton_update self =
     (case button self of
        None \<Rightarrow> ret ()
      | Some b \<Rightarrow>
          seq (get_dio_value b) (\<lambda>v.
            if \<not> v then
              seq (if truthy_leds (leds self) then emit (Fill (0, 0, 0)) else ret ()) (\<lambda>_.
              seq (print [Str ''PauseButton pressed! Exiting...'']) (\<lambda>_.
              raise SystemExit))
            else ret ()))"

section \<open>Properties of the input scanning\<close>

subsection \<open>The logical inputs and what one poll cycle should record\<close>

text \<open>
  The seven digital inputs, as \<^verbatim>\<open>_check_joystick\<close> and \<^verbatim>\<open>_check_buttons\<close> pass them to
  \<^verbatim>\<open>_check_digital\<close> (name and \<^verbatim>\<open>is_joystick\<close>), in the order of the calls; the hook, the
  flag and the handle of each; and the events that the scan of one input is expected to
  leave in the trace: the reads of its level, and the call of its hook where it fires.
\<close>

definition digital_inputs :: "(string \<times> bool) list" where
  "digital_inputs =
     [(''up'', True), (''down'', True), (''left'', True), (''right'', True), (''click'', True),
      (''a'', False), (''b'', False)]"

definition hook_name :: "string \<times> bool \<Rightarrow> string" where
  "hook_name i = ''on_'' @ (if snd i then ''joystick_'' else ''button_'') @ fst i"

definition flag_name :: "string \<times> bool \<Rightarrow> string" where
  "flag_name i = ''is_pressing_'' @ fst i"

definition input_handle :: "PixelKit \<Rightarrow> string \<times> bool \<Rightarrow> handle" where
  "input_handle self i =
     (if i = (''up'', True) then joystick_up self
      else if i = (''down'', True) then joystick_down self
      else if i = (''left'', True) then joystick_left self
      else if i = (''right'', True) then joystick_right self
      else if i = (''click'', True) then joystick_click self
      else if i = (''a'', False) then button_A self
      else button_B self)"

definition flags_defined :: "PixelKit \<Rightarrow> bool" where
  "flags_defined self = list_all (\<lambda>i. flags self (flag_name i) \<noteq> None) digital_inputs"

definition scan_digital :: "PixelKit \<Rightarrow> world \<Rightarrow> string \<times> bool \<Rightarrow> event list" where
  "scan_digital self w i =
     (let h = input_handle self i in
      Get_dio_value h #
        (if \<not> dio_value w h \<and> flags self (flag_name i) = Some False
         then [Call (hook_name i) None] else [Get_dio_value h]))"

definition scan_analog :: "world \<Rightarrow> string \<Rightarrow> handle \<Rightarrow> int \<Rightarrow> event list" where
  "scan_analog w hook h stored =
     Get_ain_value h # (if ain_value w h \<noteq> stored then [Call hook (Some (ain_value w h))] else [])"

definition scan_pause :: "PixelKit \<Rightarrow> world \<Rightarrow> event list" where
  "scan_pause self w =
     (case pause self of
        None \<Rightarrow> []
      | Some p \<Rightarrow>
          Get_dio_value p #
            (if \<not> dio_value w p
             then [Fill (0, 0, 0), Show, Print [Str ''Pause pressed -> exiting'']] else []))"

definition pause_pressed :: "PixelKit \<Rightarrow> world \<Rightarrow> bool" where
  "pause_pressed self w = (case pause self of None \<Rightarrow> False | Some p \<Rightarrow> \<not> dio_value w p)"

definition poll_flags :: "PixelKit \<Rightarrow> world \<Rightarrow> string \<Rightarrow> bool option" where
  "poll_flags self w =
     (flags self)
       (''is_pressing_up'' \<mapsto> \<not> dio_value w (joystick_up self),
        ''is_pressing_down'' \<mapsto> \<not> dio_value w (joystick_down self),
        ''is_pressing_left'' \<mapsto> \<not> dio_value w (joystick_left self),
        ''is_pressing_right'' \<mapsto> \<not> dio_value w (joystick_right self),
        ''is_pressing_click'' \<mapsto> \<not> dio_value w (joystick_click self),
        ''is_pressing_a'' \<mapsto> \<not> dio_value w (button_A self),
        ''is_pressing_b'' \<mapsto> \<not> dio_value w (button_B self))"

definition poll_events :: "PixelKit \<Rightarrow> world \<Rightarrow> event list" where
  "poll_events self w =
     scan_digital self w (''up'', True) @
     scan_digital self w (''down'', True) @
     scan_digital self w (''left'', True) @
     scan_digital self w (''right'', True) @
     scan_digital self w (''click'', True) @
     scan_digital self w (''a'', False) @
     scan_digital self w (''b'', False) @
     scan_analog w ''on_dial'' (dial self) (dial_value self) @
     scan_analog w ''on_microphone'' (microphone self) (microphone_value self) @
     scan_pause self w"

subsection \<open>A test bench for one input\<close>

text \<open>
  A test bench for one input. For each level of a list in turn, the level of the handle is
  set in the world and the check of the input is called once; the result lists, call by
  call, the events that the call added to the trace. \<open>edge_events\<close> and
  \<open>change_events\<close> say what these lists should be: a digital input fires its hook when
  the level is active (\<open>False\<close>) and the input was released, and is pressed afterwards
  iff the level was active; an analog input fires when the sample differs from the
  stored one, which the sample then replaces.
\<close>

definition set_dio_value :: "handle \<Rightarrow> bool \<Rightarrow> unit kit_prog" where
  "set_dio_value h v s =
     (case s of (self, w) \<Rightarrow> (Ok (), (self, w\<lparr>dio_value := (dio_value w)(h := v)\<rparr>)))"

definition set_ain_value :: "handle \<Rightarrow> int \<Rightarrow> unit kit_prog" where
  "set_ain_value h v s =
     (case s of (self, w) \<Rightarrow> (Ok (), (self, w\<lparr>ain_value := (ain_value w)(h := v)\<rparr>)))"

definition recorded :: "'a kit_prog \<Rightarrow> (event list) kit_prog" where
  "recorded m s =
     (case m s of
        (Ok x, s') \<Rightarrow> (Ok (drop (length (trace (snd s))) (trace (snd s'))), s')
      | (Raise e, s') \<Rightarrow> (Raise e, s'))"

fun poll_digital :: "handle \<Rightarrow> string \<Rightarrow> bool \<Rightarrow> bool list \<Rightarrow> (event list list) kit_prog" where
  "poll_digital dio name is_joystick [] = ret []"
| "poll_digital dio name is_joystick (v # vs) =
     seq (set_dio_value dio v) (\<lambda>_.
     seq (recorded (check_digital dio name is_joystick)) (\<lambda>evs.
     seq (poll_digital dio name is_joystick vs) (\<lambda>rest.
     ret (evs # rest))))"

fun poll_dial :: "int list \<Rightarrow> (event list list) kit_prog" where
  "poll_dial [] = ret []"
| "poll_dial (v # vs) =
     seq (with_self (\<lambda>self. set_ain_value (dial self) v)) (\<lambda>_.
     seq (recorded check_dial) (\<lambda>evs.
     seq (poll_dial vs) (\<lambda>rest.
     ret (evs # rest))))"

fun poll_microphone :: "int list \<Rightarrow> (event list list) kit_prog" where
  "poll_microphone [] = ret []"
| "poll_microphone (v # vs) =
     seq (with_self (\<lambda>self. set_ain_value (microphone self) v)) (\<lambda>_.
     seq (recorded check_microphone) (\<lambda>evs.
     seq (poll_microphone vs) (\<lambda>rest.
     ret (evs # rest))))"

fun edge_events :: "handle \<Rightarrow> string \<Rightarrow> bool \<Rightarrow> bool list \<Rightarrow> event list list" where
  "edge_events h hook pressed [] = []"
| "edge_events h hook pressed (v # vs) =
     (Get_dio_value h # (if \<not> v \<and> \<not> pressed then [Call hook None] else [Get_dio_value h])) #
     edge_events h hook (\<not> v) vs"

fun change_events :: "handle \<Rightarrow> string \<Rightarrow> int \<Rightarrow> int list \<Rightarrow> event list list" where
  "change_events h hook stored [] = []"
| "change_events h hook stored (v # vs) =
     (Get_ain_value h # (if v \<noteq> stored then [Call hook (Some v)] else [])) #
     change_events h hook v vs"

subsection \<open>A board for the concrete runs\<close>

text \<open>
  A board for the concrete runs: the pin table of the kit's board, the configuration file
  \<^verbatim>\<open>D15,IN\<close> and a few others, no pin refused, all digital levels inactive, and nothing
  constructed yet;
  and the object that \<^verbatim>\<open>PixelKit()\<close> makes there.
\<close>

definition demo_world :: world where
  "demo_world =
     \<lparr>board = map_of
        [(''D4'', Pin 4), (''D5'', Pin 5), (''D15'', Pin 15), (''IO15'', Pin 15),
         (''D18'', Pin 18), (''D23'', Pin 23), (''D25'', Pin 25), (''D26'', Pin 26),
         (''D27'', Pin 27), (''D34'', Pin 34), (''D35'', Pin 35), (''VP'', Pin 36),
         (''VN'', Pin 39)],
      files = map_of
        [(''pausebutton_pin_config.txt'', ''D15,IN'' @ [CHR 0x0A]),
         (''lower_case.txt'', '' D18 , out '' @ [CHR 0x0A]),
         (''bad_direction.txt'', ''D15,SIDEWAYS'' @ [CHR 0x0A]),
         (''reset_as_pause.txt'', ''D5,IN'' @ [CHR 0x0A]),
         (''unknown_pin.txt'', ''D99,IN'' @ [CHR 0x0A]),
         (''one_field.txt'', ''D15'' @ [CHR 0x0A]),
         (''empty.txt'', [CHR 0x0A])],
      dio_fault = (\<lambda>_. False), ain_fault = (\<lambda>_. False),
      dio_value = (\<lambda>_. True), ain_value = (\<lambda>_. 10),
      dio_count = 0, dio_pin = (\<lambda>_. Pin 0), dio_direction = (\<lambda>_. INPUT),
      dio_pull = (\<lambda>_. None),
      ain_count = 0, ain_pin = (\<lambda>_. Pin 0),
      dio_registry = Map.empty, ain_registry = Map.empty,
      trace = []\<rparr>"

definition demo_kit :: PixelKit where
  "demo_kit =
     \<lparr>pause = Some 0, button_A = 1, button_B = 2, button_reset = 3, joystick_up = 4,
      joystick_down = 5, joystick_left = 6, joystick_right = 7, joystick_click = 8,
      dial = 0, microphone = 1, dial_value = 10, microphone_value = 10,
      flags = initial_flags\<rparr>"

subsection \<open>The hooks called in one cycle\<close>

text \<open>
  \<open>called_hooks\<close> reads the names of the hooks called off a trace, in the order of the
  calls. \<open>fires\<close> is the condition of each hook in one cycle: a digital input is active
  and was released; an analog sample differs from the stored one.
\<close>

fun called_hooks :: "event list \<Rightarrow> string list" where
  "called_hooks [] = []"
| "called_hooks (Call n a # evs) = n # called_hooks evs"
| "called_hooks (e # evs) = called_hooks evs"

definition fires :: "PixelKit \<Rightarrow> world \<Rightarrow> string \<Rightarrow> bool" where
  "fires self w hook =
     (if hook = ''on_dial'' then ain_value w (dial self) \<noteq> dial_value self
      else if hook = ''on_microphone'' then ain_value w (microphone self) \<noteq> microphone_value self
      else list_ex (\<lambda>i. hook = hook_name i \<and> \<not> dio_value w (input_handle self i) \<and>
                         flags self (flag_name i) = Some False) digital_inputs)"

text \<open>
  The demo board with joystick up and button B active, and a new sample on the
  microphone.
\<close>

definition demo_levels :: world where
  "demo_levels =
     demo_world\<lparr>dio_value := (\<lambda>h. h \<noteq> 4 \<and> h \<noteq> 2),
                ain_value := (\<lambda>h. if h = 0 then 10 else 11)\<rparr>"

subsection \<open>A pause button for the concrete runs\<close>

text \<open>
  A \<^verbatim>\<open>PauseButton\<close> with a strip of 128 pixels on the handle 0, and the demo board with
  every digital level active.
\<close>

definition demo_button :: PauseButton where
  "demo_button = \<lparr>leds = Some 128, paused = False, button = Some 0\<rparr>"

definition demo_pressed :: world where
  "demo_pressed = demo_world\<lparr>dio_value := (\<lambda>_. False)\<rparr>"

subsection \<open>Acquisitions in a row\<close>

text \<open>
  Acquisitions in a row, for the pins of a list, whatever each of them returns or raises.
\<close>

definition acquire_dio :: "pin list \<Rightarrow> world \<Rightarrow> world" where
  "acquire_dio qs w = fold (\<lambda>q s. snd (init_dio None q s)) qs w"

definition acquire_ain :: "pin list \<Rightarrow> world \<Rightarrow> world" where
  "acquire_ain qs w = fold (\<lambda>q s. snd (init_ain None q s)) qs w"

subsection \<open>The outcomes of the configuration file\<close>

text \<open>
  What a configuration file amounts to, in the words of the specification: the file is
  missing; its first line is empty once stripped; the line has not exactly two fields;
  the first field is not in the pin table of the board; the second field is neither
  \<^verbatim>\<open>IN\<close> nor \<^verbatim>\<open>OUT\<close> in upper case; or the line is well formed, with its pin and
  direction.
\<close>

datatype config_outcome =
    Missing_file
  | Empty_line
  | Wrong_field_count
  | Unknown_pin
  | Invalid_direction pin
  | Well_formed pin Direction

definition config_fields :: "string \<Rightarrow> string list" where
  "config_fields content = map strip (split CHR '','' (strip (readline content)))"

definition config_pin_name :: "string \<Rightarrow> string" where
  "config_pin_name content = config_fields content ! 0"

definition config_direction :: "string \<Rightarrow> string" where
  "config_direction content = upper (config_fields content ! 1)"

definition config_outcome :: "world \<Rightarrow> string \<Rightarrow> config_outcome" where
  "config_outcome w filename =
     (case files w filename of
        None \<Rightarrow> Missing_file
      | Some content \<Rightarrow>
          if strip (readline content) = [] then Empty_line
          else if length (config_fields content) \<noteq> 2 then Wrong_field_count
          else
            (case board w (config_pin_name content) of
               None \<Rightarrow> Unknown_pin
             | Some p \<Rightarrow>
                 if config_direction content = ''IN'' then Well_formed p INPUT
                 else if config_direction content = ''OUT'' then Well_formed p OUTPUT
                 else Invalid_direction p))"



subsection \<open>Frames and triples\<close>

text \<open>
  \<open>grows s s'\<close>: from \<open>s\<close> to \<open>s'\<close> the platform is the same and every registry
  entry is kept. Every statement of the constructor has this frame. The two kinds of
  triples below are read as: from a state of \<open>I\<close>, if the program returns then \<open>Q\<close>
  holds of the value and the state; and: from a state of \<open>I\<close>, the program returns,
  and \<open>Q\<close> holds.
\<close>

definition grows :: "world \<Rightarrow> world \<Rightarrow> bool" where
  "grows s s' =
     (board s' = board s \<and> files s' = files s \<and>
      dio_fault s' = dio_fault s \<and> ain_fault s' = ain_fault s \<and>
      dio_value s' = dio_value s \<and> ain_value s' = ain_value s \<and>
      (\<forall>p h. dio_registry s p = Some h \<longrightarrow> dio_registry s' p = Some h) \<and>
      (\<forall>p h. ain_registry s p = Some h \<longrightarrow> ain_registry s' p = Some h))"

definition frames :: "('a, world) prog \<Rightarrow> bool" where
  "frames m = (\<forall>s r s'. m s = (r, s') \<longrightarrow> grows s s')"

definition stable :: "(world \<Rightarrow> bool) \<Rightarrow> bool" where
  "stable I = (\<forall>s s'. I s \<longrightarrow> grows s s' \<longrightarrow> I s')"

definition if_returns :: "(world \<Rightarrow> bool) \<Rightarrow> ('a, world) prog \<Rightarrow> ('a \<Rightarrow> world \<Rightarrow> bool) \<Rightarrow> bool" where
  "if_returns I m Q = (\<forall>s x s'. I s \<longrightarrow> m s = (Ok x, s') \<longrightarrow> Q x s')"


subsection \<open>Further states for the concrete runs\<close>


text \<open>
  The handles that a poll cycle reads, and the result of a call with the attribute
  \<^verbatim>\<open>button_reset\<close> set to another handle.
\<close>

fun dio_reads :: "event list \<Rightarrow> handle list" where
  "dio_reads [] = []"
| "dio_reads (Get_dio_value h # evs) = h # dio_reads evs"
| "dio_reads (e # evs) = dio_reads evs"

definition polled_handles :: "PixelKit \<Rightarrow> handle list" where
  "polled_handles self =
     map (input_handle self) digital_inputs @ (case pause self of None \<Rightarrow> [] | Some p \<Rightarrow> [p])"

definition with_button_reset ::
  "handle \<Rightarrow> 'a result \<times> PixelKit \<times> world \<Rightarrow> 'a result \<times> PixelKit \<times> world" where
  "with_button_reset h r = (case r of (x, self, w) \<Rightarrow> (x, self\<lparr>button_reset := h\<rparr>, w))"

text \<open>
  A construction on the demo board whose configuration file names the pin of the reset
  button, \<^verbatim>\<open>D5,IN\<close>, and the object it makes.
\<close>

definition reset_as_pause_args :: PixelKit_args where
  "reset_as_pause_args = default_args\<lparr>pause_config_file := ''reset_as_pause.txt''\<rparr>"

definition reset_as_pause_kit :: PixelKit where
  "reset_as_pause_kit =
     \<lparr>pause = Some 0, button_A = 1, button_B = 2, button_reset = 0, joystick_up = 3,
      joystick_down = 4, joystick_left = 5, joystick_right = 6, joystick_click = 7,
      dial = 0, microphone = 1, dial_value = 10, microphone_value = 10,
      flags = initial_flags\<rparr>"

section \<open>One call of each check\<close>

subsection \<open>Sequencing\<close>

lemma seq_Ok: "m s = (Ok x, s') \<Longrightarrow> seq m f s = f x s'"
  by (simp add: seq_def)

lemma seq_Raise: "m s = (Raise e, s') \<Longrightarrow> seq m f s = (Raise e, s')"
  by (simp add: seq_def)

lemma seq_ret [simp]: "seq (ret x) f = f x"
  by (rule ext) (simp add: seq_def ret_def)

lemma seq_raise [simp]: "seq (raise e) f = raise e"
  by (rule ext) (simp add: seq_def raise_def)

lemma hook_name_known: "i \<in> set digital_inputs \<Longrightarrow> hook_name i \<in> set event_hooks"
  by (auto simp: digital_inputs_def hook_name_def event_hooks_def)

lemma check_digital_step:
  assumes "(name, isj) \<in> set digital_inputs"
    and "flags self (''is_pressing_'' @ name) = Some p"
  shows "check_digital dio name isj (self, w) =
    (Ok (),
     (self\<lparr>flags := (flags self)(''is_pressing_'' @ name \<mapsto> \<not> dio_value w dio)\<rparr>,
      w\<lparr>trace := trace w @ Get_dio_value dio #
         (if \<not> dio_value w dio \<and> \<not> p then [Call (hook_name (name, isj)) None]
          else [Get_dio_value dio])\<rparr>))"
proof -
  have hook: "getattr_hook (hook_name (name, isj)) = ret (hook_name (name, isj))"
    using hook_name_known [OF assms(1)] by (simp add: getattr_hook_def)
  have same: "p = (\<not> dio_value w dio) \<Longrightarrow>
      (flags self)(''is_pressing_'' @ name \<mapsto> \<not> dio_value w dio) = flags self"
    using assms(2) by (simp add: map_upd_triv)
  show ?thesis
    using assms(2) hook same
    by (cases p; cases "dio_value w dio")
      (simp_all add: check_digital_def hook_name_def Let_def seq_def getattr_flag_def
        in_world_def get_dio_value_def setattr_flag_def call_hook_def emit_def ret_def)
qed

lemma check_digital_scan:
  assumes "i \<in> set digital_inputs" and "flags self (flag_name i) \<noteq> None"
  shows "check_digital (input_handle self i) (fst i) (snd i) (self, w) =
    (Ok (),
     (self\<lparr>flags := (flags self)(flag_name i \<mapsto> \<not> dio_value w (input_handle self i))\<rparr>,
      w\<lparr>trace := trace w @ scan_digital self w i\<rparr>))"
proof -
  from assms(2) obtain p where p: "flags self (''is_pressing_'' @ fst i) = Some p"
    by (auto simp: flag_name_def)
  have "(fst i, snd i) \<in> set digital_inputs" using assms(1) by simp
  from check_digital_step [OF this p] p show ?thesis
    by (simp add: scan_digital_def flag_name_def Let_def)
qed

lemma check_dial_step:
  "check_dial (self, w) =
    (Ok (), (self\<lparr>dial_value := ain_value w (dial self)\<rparr>,
             w\<lparr>trace := trace w @ scan_analog w ''on_dial'' (dial self) (dial_value self)\<rparr>))"
  by (simp add: check_dial_def seq_def with_self_def in_world_def get_ain_value_def
      call_hook_def emit_def ret_def scan_analog_def)

lemma check_microphone_step:
  "check_microphone (self, w) =
    (Ok (), (self\<lparr>microphone_value := ain_value w (microphone self)\<rparr>,
             w\<lparr>trace := trace w @
                scan_analog w ''on_microphone'' (microphone self) (microphone_value self)\<rparr>))"
  by (simp add: check_microphone_def seq_def with_self_def in_world_def get_ain_value_def
      call_hook_def emit_def ret_def scan_analog_def)

lemma update_pause_step:
  "update_pause (self, w) =
    (if pause_pressed self w then Raise SystemExit else Ok (),
     (self, w\<lparr>trace := trace w @ scan_pause self w\<rparr>))"
  by (simp add: update_pause_def seq_def with_self_def in_world_def get_dio_value_def
      print_def emit_def ret_def raise_def scan_pause_def pause_pressed_def split: option.splits)

lemma check_digital_at:
  assumes "i \<in> set digital_inputs" and "flags self (flag_name i) \<noteq> None"
    and "input_handle self i = h" and "fst i = n" and "snd i = j"
  shows "check_digital h n j (self, w) =
    (Ok (), (self\<lparr>flags := (flags self)(flag_name i \<mapsto> \<not> dio_value w h)\<rparr>,
             w\<lparr>trace := trace w @ scan_digital self w i\<rparr>))"
  using check_digital_scan [OF assms(1,2), of w] assms(3-5) by simp

lemma check_joystick_closed:
  assumes "flags_defined self"
  shows "check_joystick (self, w) =
    (Ok (),
     (self\<lparr>flags := (flags self)
        (''is_pressing_up'' \<mapsto> \<not> dio_value w (joystick_up self),
         ''is_pressing_down'' \<mapsto> \<not> dio_value w (joystick_down self),
         ''is_pressing_left'' \<mapsto> \<not> dio_value w (joystick_left self),
         ''is_pressing_right'' \<mapsto> \<not> dio_value w (joystick_right self),
         ''is_pressing_click'' \<mapsto> \<not> dio_value w (joystick_click self))\<rparr>,
      w\<lparr>trace := trace w @
         scan_digital self w (''up'', True) @
         scan_digital self w (''down'', True) @
         scan_digital self w (''left'', True) @
         scan_digital self w (''right'', True) @
         scan_digital self w (''click'', True)\<rparr>))"
proof -
  define k1 where "k1 = self\<lparr>flags := (flags self)(''is_pressing_up'' \<mapsto> \<not> dio_value w (joystick_up self))\<rparr>"
  define k2 where "k2 = k1\<lparr>flags := (flags k1)(''is_pressing_down'' \<mapsto> \<not> dio_value w (joystick_down self))\<rparr>"
  define k3 where "k3 = k2\<lparr>flags := (flags k2)(''is_pressing_left'' \<mapsto> \<not> dio_value w (joystick_left self))\<rparr>"
  define k4 where "k4 = k3\<lparr>flags := (flags k3)(''is_pressing_right'' \<mapsto> \<not> dio_value w (joystick_right self))\<rparr>"
  define k5 where "k5 = k4\<lparr>flags := (flags k4)(''is_pressing_click'' \<mapsto> \<not> dio_value w (joystick_click self))\<rparr>"
  define w1 where "w1 = w\<lparr>trace := trace w @ scan_digital self w (''up'', True)\<rparr>"
  define w2 where "w2 = w1\<lparr>trace := trace w1 @ scan_digital self w (''down'', True)\<rparr>"
  define w3 where "w3 = w2\<lparr>trace := trace w2 @ scan_digital self w (''left'', True)\<rparr>"
  define w4 where "w4 = w3\<lparr>trace := trace w3 @ scan_digital self w (''right'', True)\<rparr>"
  define w5 where "w5 = w4\<lparr>trace := trace w4 @ scan_digital self w (''click'', True)\<rparr>"
  note defs = k1_def k2_def k3_def k4_def k5_def w1_def w2_def w3_def w4_def w5_def
  note fd = assms [unfolded flags_defined_def digital_inputs_def flag_name_def, simplified]
  have 1: "check_digital (joystick_up self) ''up'' True (self, w) = (Ok (), (k1, w1))"
    using fd by (subst check_digital_at [of "(''up'', True)"])
      (simp_all add: digital_inputs_def flag_name_def input_handle_def defs)
  have 2: "check_digital (joystick_down k1) ''down'' True (k1, w1) = (Ok (), (k2, w2))"
    using fd by (subst check_digital_at [of "(''down'', True)"])
      (simp_all add: digital_inputs_def flag_name_def input_handle_def scan_digital_def defs)
  have 3: "check_digital (joystick_left k2) ''left'' True (k2, w2) = (Ok (), (k3, w3))"
    using fd by (subst check_digital_at [of "(''left'', True)"])
      (simp_all add: digital_inputs_def flag_name_def input_handle_def scan_digital_def defs)
  have 4: "check_digital (joystick_right k3) ''right'' True (k3, w3) = (Ok (), (k4, w4))"
    using fd by (subst check_digital_at [of "(''right'', True)"])
      (simp_all add: digital_inputs_def flag_name_def input_handle_def scan_digital_def defs)
  have 5: "check_digital (joystick_click k4) ''click'' True (k4, w4) = (Ok (), (k5, w5))"
    using fd by (subst check_digital_at [of "(''click'', True)"])
      (simp_all add: digital_inputs_def flag_name_def input_handle_def scan_digital_def defs)
  have "check_joystick (self, w) = (Ok (), (k5, w5))"
    by (simp add: check_joystick_def seq_def with_self_def 1 2 3 4 5)
  also have "k5 = self\<lparr>flags := (flags self)
        (''is_pressing_up'' \<mapsto> \<not> dio_value w (joystick_up self),
         ''is_pressing_down'' \<mapsto> \<not> dio_value w (joystick_down self),
         ''is_pressing_left'' \<mapsto> \<not> dio_value w (joystick_left self),
         ''is_pressing_right'' \<mapsto> \<not> dio_value w (joystick_right self),
         ''is_pressing_click'' \<mapsto> \<not> dio_value w (joystick_click self))\<rparr>"
    by (simp add: defs)
  also have "w5 = w\<lparr>trace := trace w @
         scan_digital self w (''up'', True) @
         scan_digital self w (''down'', True) @
         scan_digital self w (''left'', True) @
         scan_digital self w (''right'', True) @
         scan_digital self w (''click'', True)\<rparr>"
    by (simp add: defs)
  finally show ?thesis .
qed

lemma check_buttons_closed:
  assumes "flags_defined self"
  shows "check_buttons (self, w) =
    (Ok (),
     (self\<lparr>flags := (flags self)
        (''is_pressing_a'' \<mapsto> \<not> dio_value w (button_A self),
         ''is_pressing_b'' \<mapsto> \<not> dio_value w (button_B self))\<rparr>,
      w\<lparr>trace := trace w @
         scan_digital self w (''a'', False) @ scan_digital self w (''b'', False)\<rparr>))"
proof -
  define k1 where "k1 = self\<lparr>flags := (flags self)(''is_pressing_a'' \<mapsto> \<not> dio_value w (button_A self))\<rparr>"
  define w1 where "w1 = w\<lparr>trace := trace w @ scan_digital self w (''a'', False)\<rparr>"
  note fd = assms [unfolded flags_defined_def digital_inputs_def flag_name_def, simplified]
  have 1: "check_digital (button_A self) ''a'' False (self, w) = (Ok (), (k1, w1))"
    using fd by (subst check_digital_at [of "(''a'', False)"])
      (simp_all add: digital_inputs_def flag_name_def input_handle_def k1_def w1_def)
  have 2: "check_digital (button_B k1) ''b'' False (k1, w1) =
      (Ok (), (k1\<lparr>flags := (flags k1)(''is_pressing_b'' \<mapsto> \<not> dio_value w (button_B self))\<rparr>,
               w1\<lparr>trace := trace w1 @ scan_digital self w (''b'', False)\<rparr>))"
    using fd by (subst check_digital_at [of "(''b'', False)"])
      (simp_all add: digital_inputs_def flag_name_def input_handle_def scan_digital_def k1_def w1_def)
  show ?thesis
    by (simp add: check_buttons_def seq_def with_self_def 1 2) (simp add: k1_def w1_def)
qed

lemma check_controls_closed:
  assumes "flags_defined self"
  shows "check_controls (self, w) =
    (if pause_pressed self w then Raise SystemExit else Ok (),
     (self\<lparr>flags := poll_flags self w,
           dial_value := ain_value w (dial self),
           microphone_value := ain_value w (microphone self)\<rparr>,
      w\<lparr>trace := trace w @ poll_events self w\<rparr>))"
proof -
  define k1 where "k1 = self\<lparr>flags := (flags self)
        (''is_pressing_up'' \<mapsto> \<not> dio_value w (joystick_up self),
         ''is_pressing_down'' \<mapsto> \<not> dio_value w (joystick_down self),
         ''is_pressing_left'' \<mapsto> \<not> dio_value w (joystick_left self),
         ''is_pressing_right'' \<mapsto> \<not> dio_value w (joystick_right self),
         ''is_pressing_click'' \<mapsto> \<not> dio_value w (joystick_click self))\<rparr>"
  define w1 where "w1 = w\<lparr>trace := trace w @
         scan_digital self w (''up'', True) @
         scan_digital self w (''down'', True) @
         scan_digital self w (''left'', True) @
         scan_digital self w (''right'', True) @
         scan_digital self w (''click'', True)\<rparr>"
  note fd = assms [unfolded flags_defined_def digital_inputs_def flag_name_def, simplified]
  have j: "check_joystick (self, w) = (Ok (), (k1, w1))"
    unfolding k1_def w1_def by (rule check_joystick_closed [OF assms])
  have fd1: "flags_defined k1"
    using fd by (simp add: flags_defined_def digital_inputs_def flag_name_def k1_def)
  have b: "check_buttons (k1, w1) =
    (Ok (),
     (k1\<lparr>flags := poll_flags self w\<rparr>,
      w1\<lparr>trace := trace w1 @
         scan_digital self w (''a'', False) @ scan_digital self w (''b'', False)\<rparr>))"
    by (subst check_buttons_closed [OF fd1])
      (simp add: k1_def w1_def poll_flags_def scan_digital_def input_handle_def flag_name_def)
  show ?thesis
    by (simp add: check_controls_def seq_def j b check_dial_step check_microphone_step
        update_pause_step)
      (simp add: k1_def w1_def poll_events_def scan_pause_def scan_analog_def pause_pressed_def
        split: option.splits)
qed

section \<open>Level sequences: the edge detection and the analog change dispatch\<close>

lemma poll_digital_events:
  assumes "i \<in> set digital_inputs"
  shows "flags self (flag_name i) = Some p \<Longrightarrow>
    fst (poll_digital dio (fst i) (snd i) vs (self, w)) = Ok (edge_events dio (hook_name i) p vs)"
proof (induction vs arbitrary: self w p)
  case Nil
  then show ?case by (simp add: ret_def)
next
  case (Cons v vs)
  define w1 where "w1 = w\<lparr>dio_value := (dio_value w)(dio := v)\<rparr>"
  define k2 where "k2 = self\<lparr>flags := (flags self)(flag_name i \<mapsto> \<not> v)\<rparr>"
  define evs where "evs = Get_dio_value dio #
         (if \<not> v \<and> \<not> p then [Call (hook_name i) None] else [Get_dio_value dio])"
  define w2 where "w2 = w1\<lparr>trace := trace w1 @ evs\<rparr>"
  have i: "(fst i, snd i) \<in> set digital_inputs" using assms by simp
  have step: "check_digital dio (fst i) (snd i) (self, w1) = (Ok (), (k2, w2))"
    using check_digital_step [OF i, of self p dio w1] Cons.prems
    by (simp add: flag_name_def k2_def w2_def w1_def evs_def)
  have rec: "recorded (check_digital dio (fst i) (snd i)) (self, w1) = (Ok evs, (k2, w2))"
    by (simp add: recorded_def step w2_def)
  have "flags k2 (flag_name i) = Some (\<not> v)" by (simp add: k2_def)
  from Cons.IH [OF this, of w2]
  obtain t where rest: "poll_digital dio (fst i) (snd i) vs (k2, w2) =
      (Ok (edge_events dio (hook_name i) (\<not> v) vs), t)"
    by (cases "poll_digital dio (fst i) (snd i) vs (k2, w2)") simp
  show ?case
    by (simp add: seq_def set_dio_value_def w1_def [symmetric] rec rest ret_def evs_def)
qed

lemma poll_dial_events:
  "fst (poll_dial vs (self, w)) = Ok (change_events (dial self) ''on_dial'' (dial_value self) vs)"
proof (induction vs arbitrary: self w)
  case Nil
  then show ?case by (simp add: ret_def)
next
  case (Cons v vs)
  define w1 where "w1 = w\<lparr>ain_value := (ain_value w)(dial self := v)\<rparr>"
  define k2 where "k2 = self\<lparr>dial_value := v\<rparr>"
  define evs where "evs = Get_ain_value (dial self) #
         (if v \<noteq> dial_value self then [Call ''on_dial'' (Some v)] else [])"
  define w2 where "w2 = w1\<lparr>trace := trace w1 @ evs\<rparr>"
  have rec: "recorded check_dial (self, w1) = (Ok evs, (k2, w2))"
    by (simp add: recorded_def check_dial_step scan_analog_def w2_def k2_def w1_def evs_def)
  from Cons.IH [of k2 w2]
  obtain t where rest: "poll_dial vs (k2, w2) = (Ok (change_events (dial self) ''on_dial'' v vs), t)"
    by (cases "poll_dial vs (k2, w2)") (simp add: k2_def)
  show ?case
    by (simp add: seq_def with_self_def set_ain_value_def w1_def [symmetric] rec rest ret_def evs_def)
qed

lemma poll_microphone_events:
  "fst (poll_microphone vs (self, w)) =
     Ok (change_events (microphone self) ''on_microphone'' (microphone_value self) vs)"
proof (induction vs arbitrary: self w)
  case Nil
  then show ?case by (simp add: ret_def)
next
  case (Cons v vs)
  define w1 where "w1 = w\<lparr>ain_value := (ain_value w)(microphone self := v)\<rparr>"
  define k2 where "k2 = self\<lparr>microphone_value := v\<rparr>"
  define evs where "evs = Get_ain_value (microphone self) #
         (if v \<noteq> microphone_value self then [Call ''on_microphone'' (Some v)] else [])"
  define w2 where "w2 = w1\<lparr>trace := trace w1 @ evs\<rparr>"
  have rec: "recorded check_microphone (self, w1) = (Ok evs, (k2, w2))"
    by (simp add: recorded_def check_microphone_step scan_analog_def w2_def k2_def w1_def evs_def)
  from Cons.IH [of k2 w2]
  obtain t where rest: "poll_microphone vs (k2, w2) =
      (Ok (change_events (microphone self) ''on_microphone'' v vs), t)"
    by (cases "poll_microphone vs (k2, w2)") (simp add: k2_def)
  show ?case
    by (simp add: seq_def with_self_def set_ain_value_def w1_def [symmetric] rec rest ret_def evs_def)
qed

text \<open>
  Claim C2. For each of the seven digital inputs, starting released: the levels active,
  active, active, inactive, active (\<open>False\<close> is active), each held for one call of
  \<^verbatim>\<open>_check_digital\<close>, make the five calls record exactly the events below. The hook of
  the input is called in the first and in the fifth call, once each, and no hook is
  called in the other three, the release in the fourth included.
\<close>

theorem C2_edge_triggering:
  assumes "i \<in> set digital_inputs" and "flags self (flag_name i) = Some False"
  shows "fst (poll_digital dio (fst i) (snd i) [False, False, False, True, False] (self, w)) =
     Ok [[Get_dio_value dio, Call (hook_name i) None],
         [Get_dio_value dio, Get_dio_value dio],
         [Get_dio_value dio, Get_dio_value dio],
         [Get_dio_value dio, Get_dio_value dio],
         [Get_dio_value dio, Call (hook_name i) None]]"
  using poll_digital_events [OF assms, of dio "[False, False, False, True, False]" w] by simp

theorem C2_edge_triggering_witness:
  "(''up'', True) \<in> set digital_inputs \<and>
   flags demo_kit (flag_name (''up'', True)) = Some False \<and>
   fst (poll_digital 4 ''up'' True [False, False, False, True, False] (demo_kit, demo_world)) =
     Ok [[Get_dio_value 4, Call ''on_joystick_up'' None],
         [Get_dio_value 4, Get_dio_value 4],
         [Get_dio_value 4, Get_dio_value 4],
         [Get_dio_value 4, Get_dio_value 4],
         [Get_dio_value 4, Call ''on_joystick_up'' None]]"
  using C2_edge_triggering [of "(''up'', True)" demo_kit 4 demo_world]
  by (simp add: digital_inputs_def flag_name_def hook_name_def demo_kit_def initial_flags_def)

text \<open>
  Claim C6. With the stored value 10, the samples 10, 10, 12, 12, 9 make the five calls of
  \<^verbatim>\<open>_check_dial\<close> (and likewise of \<^verbatim>\<open>_check_microphone\<close>) call the hook exactly twice,
  with 12 in the third call and with 9 in the fifth. In general one call reads the
  sample, calls the hook with the sample iff it differs from the stored value, and
  leaves the sample as the stored value.
\<close>

theorem C6_analog_change:
  "fst (poll_dial [10, 10, 12, 12, 9] (self\<lparr>dial_value := 10\<rparr>, w)) =
     Ok [[Get_ain_value (dial self)],
         [Get_ain_value (dial self)],
         [Get_ain_value (dial self), Call ''on_dial'' (Some 12)],
         [Get_ain_value (dial self)],
         [Get_ain_value (dial self), Call ''on_dial'' (Some 9)]]
   \<and> fst (poll_microphone [10, 10, 12, 12, 9] (self\<lparr>microphone_value := 10\<rparr>, w)) =
     Ok [[Get_ain_value (microphone self)],
         [Get_ain_value (microphone self)],
         [Get_ain_value (microphone self), Call ''on_microphone'' (Some 12)],
         [Get_ain_value (microphone self)],
         [Get_ain_value (microphone self), Call ''on_microphone'' (Some 9)]]
   \<and> check_dial (self, w) =
       (Ok (),
        (self\<lparr>dial_value := ain_value w (dial self)\<rparr>,
         w\<lparr>trace := trace w @ Get_ain_value (dial self) #
            (if ain_value w (dial self) \<noteq> dial_value self
             then [Call ''on_dial'' (Some (ain_value w (dial self)))] else [])\<rparr>))
   \<and> check_microphone (self, w) =
       (Ok (),
        (self\<lparr>microphone_value := ain_value w (microphone self)\<rparr>,
         w\<lparr>trace := trace w @ Get_ain_value (microphone self) #
            (if ain_value w (microphone self) \<noteq> microphone_value self
             then [Call ''on_microphone'' (Some (ain_value w (microphone self)))] else [])\<rparr>))"
proof (intro conjI)
  show "fst (poll_dial [10, 10, 12, 12, 9] (self\<lparr>dial_value := 10\<rparr>, w)) =
     Ok [[Get_ain_value (dial self)],
         [Get_ain_value (dial self)],
         [Get_ain_value (dial self), Call ''on_dial'' (Some 12)],
         [Get_ain_value (dial self)],
         [Get_ain_value (dial self), Call ''on_dial'' (Some 9)]]"
    by (simp only: poll_dial_events) simp
  show "fst (poll_microphone [10, 10, 12, 12, 9] (self\<lparr>microphone_value := 10\<rparr>, w)) =
     Ok [[Get_ain_value (microphone self)],
         [Get_ain_value (microphone self)],
         [Get_ain_value (microphone self), Call ''on_microphone'' (Some 12)],
         [Get_ain_value (microphone self)],
         [Get_ain_value (microphone self), Call ''on_microphone'' (Some 9)]]"
    by (simp only: poll_microphone_events) simp
qed (simp_all add: check_dial_step check_microphone_step scan_analog_def)

section \<open>The order of one poll cycle\<close>

lemma called_hooks_append [simp]: "called_hooks (xs @ ys) = called_hooks xs @ called_hooks ys"
  by (induction xs rule: called_hooks.induct) simp_all

lemma called_hooks_scan_digital:
  "called_hooks (scan_digital self w i) =
     (if \<not> dio_value w (input_handle self i) \<and> flags self (flag_name i) = Some False
      then [hook_name i] else [])"
  by (simp add: scan_digital_def Let_def)

lemma called_hooks_scan_analog:
  "called_hooks (scan_analog w hook h stored) = (if ain_value w h \<noteq> stored then [hook] else [])"
  by (simp add: scan_analog_def)

lemma called_hooks_scan_pause: "called_hooks (scan_pause self w) = []"
  by (cases "pause self") (simp_all add: scan_pause_def)

lemma digital_inputs_cases:
  assumes "i \<in> set digital_inputs"
  obtains "i = (''up'', True)" | "i = (''down'', True)" | "i = (''left'', True)"
    | "i = (''right'', True)" | "i = (''click'', True)" | "i = (''a'', False)"
    | "i = (''b'', False)"
  using assms unfolding digital_inputs_def by auto

lemma fires_digital:
  assumes "i \<in> set digital_inputs"
  shows "fires self w (hook_name i) =
    (\<not> dio_value w (input_handle self i) \<and> flags self (flag_name i) = Some False)"
  using assms
  by (cases rule: digital_inputs_cases)
    (simp_all add: fires_def digital_inputs_def hook_name_def flag_name_def input_handle_def)

lemma fires_analog:
  "fires self w ''on_dial'' = (ain_value w (dial self) \<noteq> dial_value self)"
  "fires self w ''on_microphone'' = (ain_value w (microphone self) \<noteq> microphone_value self)"
  by (simp_all add: fires_def)

lemma filter_Cons_append: "filter P (x # xs) = (if P x then [x] else []) @ filter P xs"
  by simp

lemma called_hooks_poll_events:
  "called_hooks (poll_events self w) = filter (fires self w) event_hooks"
proof -
  have hooks: "event_hooks =
      [hook_name (''up'', True), hook_name (''down'', True), hook_name (''left'', True),
       hook_name (''right'', True), hook_name (''click'', True), hook_name (''a'', False),
       hook_name (''b'', False), ''on_dial'', ''on_microphone'']"
    by (simp add: event_hooks_def hook_name_def)
  have d: "fires self w (hook_name i) =
      (\<not> dio_value w (input_handle self i) \<and> flags self (flag_name i) = Some False)"
    if "i \<in> set digital_inputs" for i
    using that by (rule fires_digital)
  note ds = d [of "(''up'', True)"] d [of "(''down'', True)"] d [of "(''left'', True)"]
    d [of "(''right'', True)"] d [of "(''click'', True)"] d [of "(''a'', False)"]
    d [of "(''b'', False)"]
  have mem: "(''up'', True) \<in> set digital_inputs" "(''down'', True) \<in> set digital_inputs"
    "(''left'', True) \<in> set digital_inputs" "(''right'', True) \<in> set digital_inputs"
    "(''click'', True) \<in> set digital_inputs" "(''a'', False) \<in> set digital_inputs"
    "(''b'', False) \<in> set digital_inputs"
    by (simp_all add: digital_inputs_def)
  show ?thesis
    unfolding hooks poll_events_def called_hooks_append called_hooks_scan_digital
      called_hooks_scan_analog called_hooks_scan_pause filter_Cons_append
      ds(1) [OF mem(1)] ds(2) [OF mem(2)] ds(3) [OF mem(3)] ds(4) [OF mem(4)] ds(5) [OF mem(5)]
      ds(6) [OF mem(6)] ds(7) [OF mem(7)] fires_analog
    by simp
qed

text \<open>
  Claim C7. One call of \<^verbatim>\<open>check_controls\<close> adds to the trace the scan of joystick up,
  down, left, right and click, then of button A and button B, then of the dial, then of
  the microphone, then of the pause handle, in this order and nothing else; each scan is
  the reads of that input followed by the call of its hook where it fires. So the hooks
  called in one cycle are those of the fixed list whose condition holds, in the order
  of the list.
\<close>

theorem C7_scan_order:
  assumes "flags_defined self"
  shows "trace (snd (snd (check_controls (self, w)))) =
      trace w @
      scan_digital self w (''up'', True) @
      scan_digital self w (''down'', True) @
      scan_digital self w (''left'', True) @
      scan_digital self w (''right'', True) @
      scan_digital self w (''click'', True) @
      scan_digital self w (''a'', False) @
      scan_digital self w (''b'', False) @
      scan_analog w ''on_dial'' (dial self) (dial_value self) @
      scan_analog w ''on_microphone'' (microphone self) (microphone_value self) @
      scan_pause self w
    \<and> called_hooks (drop (length (trace w)) (trace (snd (snd (check_controls (self, w)))))) =
      filter (fires self w)
        [''on_joystick_up'', ''on_joystick_down'', ''on_joystick_left'', ''on_joystick_right'',
         ''on_joystick_click'', ''on_button_a'', ''on_button_b'', ''on_dial'', ''on_microphone'']"
proof -
  have t: "trace (snd (snd (check_controls (self, w)))) = trace w @ poll_events self w"
    by (simp add: check_controls_closed [OF assms])
  have "called_hooks (drop (length (trace w)) (trace (snd (snd (check_controls (self, w)))))) =
      filter (fires self w) event_hooks"
    by (simp add: t called_hooks_poll_events)
  then show ?thesis
    using t by (simp add: poll_events_def event_hooks_def)
qed

lemma flags_defined_demo_kit: "flags_defined demo_kit"
  by (auto simp: flags_defined_def digital_inputs_def flag_name_def demo_kit_def initial_flags_def)

theorem C7_scan_order_witness:
  "flags_defined demo_kit \<and>
   trace (snd (snd (check_controls (demo_kit, demo_levels)))) =
     [Get_dio_value 4, Call ''on_joystick_up'' None,
      Get_dio_value 5, Get_dio_value 5,
      Get_dio_value 6, Get_dio_value 6,
      Get_dio_value 7, Get_dio_value 7,
      Get_dio_value 8, Get_dio_value 8,
      Get_dio_value 1, Get_dio_value 1,
      Get_dio_value 2, Call ''on_button_b'' None,
      Get_ain_value 0,
      Get_ain_value 1, Call ''on_microphone'' (Some 11),
      Get_dio_value 0]"
proof -
  have "trace (snd (snd (check_controls (demo_kit, demo_levels)))) =
      trace demo_levels @
      scan_digital demo_kit demo_levels (''up'', True) @
      scan_digital demo_kit demo_levels (''down'', True) @
      scan_digital demo_kit demo_levels (''left'', True) @
      scan_digital demo_kit demo_levels (''right'', True) @
      scan_digital demo_kit demo_levels (''click'', True) @
      scan_digital demo_kit demo_levels (''a'', False) @
      scan_digital demo_kit demo_levels (''b'', False) @
      scan_analog demo_levels ''on_dial'' (dial demo_kit) (dial_value demo_kit) @
      scan_analog demo_levels ''on_microphone'' (microphone demo_kit) (microphone_value demo_kit) @
      scan_pause demo_kit demo_levels"
    using C7_scan_order [OF flags_defined_demo_kit, of demo_levels] by (rule conjunct1)
  then have "trace (snd (snd (check_controls (demo_kit, demo_levels)))) =
     [Get_dio_value 4, Call ''on_joystick_up'' None,
      Get_dio_value 5, Get_dio_value 5,
      Get_dio_value 6, Get_dio_value 6,
      Get_dio_value 7, Get_dio_value 7,
      Get_dio_value 8, Get_dio_value 8,
      Get_dio_value 1, Get_dio_value 1,
      Get_dio_value 2, Call ''on_button_b'' None,
      Get_ain_value 0,
      Get_ain_value 1, Call ''on_microphone'' (Some 11),
      Get_dio_value 0]"
    by (simp add: scan_digital_def scan_analog_def scan_pause_def
        input_handle_def hook_name_def flag_name_def demo_kit_def initial_flags_def
        demo_levels_def demo_world_def)
  with flags_defined_demo_kit show ?thesis by (rule conjI)
qed

section \<open>The pause check\<close>

text \<open>
  Claim C4, as the code has it. \<^verbatim>\<open>PixelKit._update_pause\<close> with a pause handle: an
  inactive level (\<open>True\<close>) gives a normal return after the one read, with no call on the
  pixels; an active level gives the read, then \<^verbatim>\<open>fill((0, 0, 0))\<close> once, then
  \<^verbatim>\<open>show()\<close> once, then the message, and then \<^verbatim>\<open>SystemExit\<close>, raised in the state that
  holds both calls. \<^verbatim>\<open>PauseButton.update\<close> with a button: an inactive level gives a normal
  return after the one read; an active level gives the read, then \<^verbatim>\<open>fill((0, 0, 0))\<close> once
  if there are leds, then the message, and then \<^verbatim>\<open>SystemExit\<close>; it never calls
  \<^verbatim>\<open>show()\<close>.
\<close>

theorem C4_pause_check:
  "update_pause (self\<lparr>pause := Some p\<rparr>, w) =
     (if dio_value w p
      then (Ok (), (self\<lparr>pause := Some p\<rparr>, w\<lparr>trace := trace w @ [Get_dio_value p]\<rparr>))
      else (Raise SystemExit,
            (self\<lparr>pause := Some p\<rparr>,
             w\<lparr>trace := trace w @
                [Get_dio_value p, Fill (0, 0, 0), Show,
                 Print [Str ''Pause pressed -> exiting'']]\<rparr>)))
   \<and> PauseButton_update (pb\<lparr>button := Some b\<rparr>) w =
     (if dio_value w b
      then (Ok (), w\<lparr>trace := trace w @ [Get_dio_value b]\<rparr>)
      else (Raise SystemExit,
            w\<lparr>trace := trace w @
               Get_dio_value b #
               (if truthy_leds (leds pb) then [Fill (0, 0, 0)] else []) @
               [Print [Str ''PauseButton pressed! Exiting...'']]\<rparr>))"
  by (simp add: update_pause_step pause_pressed_def scan_pause_def PauseButton_update_def
      seq_def get_dio_value_def emit_def print_def ret_def raise_def)

text \<open>
  Claim C4 as stated fails for \<^verbatim>\<open>PauseButton.update\<close>: with a strip of 128 pixels and
  an active level on the button it exits after \<^verbatim>\<open>fill\<close>, without any \<^verbatim>\<open>show\<close>.
\<close>

theorem C4_counterexample:
  "button demo_button = Some 0 \<and> \<not> dio_value demo_pressed 0 \<and>
   fst (PauseButton_update demo_button demo_pressed) = Raise SystemExit \<and>
   trace (snd (PauseButton_update demo_button demo_pressed)) =
     [Get_dio_value 0, Fill (0, 0, 0), Print [Str ''PauseButton pressed! Exiting...'']] \<and>
   Show \<notin> set (trace (snd (PauseButton_update demo_button demo_pressed)))"
  by (simp add: PauseButton_update_def demo_button_def demo_pressed_def demo_world_def
      truthy_leds_def seq_def get_dio_value_def emit_def print_def ret_def raise_def)

section \<open>The pin registries\<close>

text \<open>The two helpers on a request without instance, statement by statement.\<close>

lemma init_dio_None:
  "init_dio None p w =
     (case dio_registry w p of
        Some h \<Rightarrow> (Ok h, w)
      | None \<Rightarrow>
          if dio_fault w p then (Raise HardwareError, w)
          else (Ok (dio_count w),
                w\<lparr>dio_count := Suc (dio_count w),
                  dio_pin := (dio_pin w)(dio_count w := p),
                  dio_direction := (dio_direction w)(dio_count w := INPUT),
                  dio_pull := (dio_pull w)(dio_count w := Some UP),
                  dio_registry := (dio_registry w)(p \<mapsto> dio_count w),
                  trace := trace w @ [New_DigitalInOut p]\<rparr>))"
  by (simp add: init_dio_def seq_def DigitalInOut_def set_direction_def set_pull_def
      dio_registry_store_def ret_def split: option.splits)

lemma init_ain_None:
  "init_ain None p w =
     (case ain_registry w p of
        Some h \<Rightarrow> (Ok h, w)
      | None \<Rightarrow>
          if ain_fault w p then (Raise HardwareError, w)
          else (Ok (ain_count w),
                w\<lparr>ain_count := Suc (ain_count w),
                  ain_pin := (ain_pin w)(ain_count w := p),
                  ain_registry := (ain_registry w)(p \<mapsto> ain_count w),
                  trace := trace w @ [New_AnalogIn p]\<rparr>))"
  by (simp add: init_ain_def seq_def AnalogIn_def ain_registry_store_def ret_def
      split: option.splits)

lemma init_dio_registered:
  "init_dio None p w = (Ok h, w') \<Longrightarrow> dio_registry w' p = Some h"
  by (auto simp: init_dio_None split: option.splits if_splits)

lemma init_ain_registered:
  "init_ain None p w = (Ok h, w') \<Longrightarrow> ain_registry w' p = Some h"
  by (auto simp: init_ain_None split: option.splits if_splits)

lemma init_dio_keeps:
  assumes "dio_registry w p = Some h"
  shows "dio_registry (snd (init_dio None q w)) p = Some h \<and>
         count_list (trace (snd (init_dio None q w))) (New_DigitalInOut p) =
         count_list (trace w) (New_DigitalInOut p)"
  using assms by (cases "q = p") (auto simp: init_dio_None split: option.splits)

lemma init_ain_keeps:
  assumes "ain_registry w p = Some h"
  shows "ain_registry (snd (init_ain None q w)) p = Some h \<and>
         count_list (trace (snd (init_ain None q w))) (New_AnalogIn p) =
         count_list (trace w) (New_AnalogIn p)"
  using assms by (cases "q = p") (auto simp: init_ain_None split: option.splits)

lemma acquire_dio_keeps:
  "dio_registry w p = Some h \<Longrightarrow>
     dio_registry (acquire_dio qs w) p = Some h \<and>
     count_list (trace (acquire_dio qs w)) (New_DigitalInOut p) =
     count_list (trace w) (New_DigitalInOut p)"
proof (induction qs arbitrary: w)
  case Nil
  then show ?case by (simp add: acquire_dio_def)
next
  case (Cons q qs)
  from init_dio_keeps [OF Cons.prems, of q] Cons.IH [of "snd (init_dio None q w)"]
  show ?case by (simp add: acquire_dio_def)
qed

lemma acquire_ain_keeps:
  "ain_registry w p = Some h \<Longrightarrow>
     ain_registry (acquire_ain qs w) p = Some h \<and>
     count_list (trace (acquire_ain qs w)) (New_AnalogIn p) =
     count_list (trace w) (New_AnalogIn p)"
proof (induction qs arbitrary: w)
  case Nil
  then show ?case by (simp add: acquire_ain_def)
next
  case (Cons q qs)
  from init_ain_keeps [OF Cons.prems, of q] Cons.IH [of "snd (init_ain None q w)"]
  show ?case by (simp add: acquire_ain_def)
qed

lemma init_dio_count:
  "init_dio None p w = (Ok h, w') \<Longrightarrow>
     count_list (trace w') (New_DigitalInOut p) =
     count_list (trace w) (New_DigitalInOut p) + (if dio_registry w p = None then 1 else 0)"
  by (auto simp: init_dio_None split: option.splits if_splits)

lemma init_ain_count:
  "init_ain None p w = (Ok h, w') \<Longrightarrow>
     count_list (trace w') (New_AnalogIn p) =
     count_list (trace w) (New_AnalogIn p) + (if ain_registry w p = None then 1 else 0)"
  by (auto simp: init_ain_None split: option.splits if_splits)

text \<open>
  Claim C3. Where an acquisition of a pin from the digital registry returns a handle,
  a second acquisition of that pin, after acquisitions of any pins in between, returns
  the same handle and leaves the world as it is. Over the whole run the constructor is
  called for the pin once if the registry had no entry for it at the start and not at
  all otherwise. The same holds for the analog registry.
\<close>

theorem C3_registry_idempotent:
  "(init_dio None p w = (Ok h, w1) \<longrightarrow>
      init_dio None p (acquire_dio qs w1) = (Ok h, acquire_dio qs w1) \<and>
      count_list (trace (acquire_dio qs w1)) (New_DigitalInOut p) =
        count_list (trace w) (New_DigitalInOut p) + (if dio_registry w p = None then 1 else 0))
   \<and> (init_ain None p w = (Ok h, w1) \<longrightarrow>
      init_ain None p (acquire_ain qs w1) = (Ok h, acquire_ain qs w1) \<and>
      count_list (trace (acquire_ain qs w1)) (New_AnalogIn p) =
        count_list (trace w) (New_AnalogIn p) + (if ain_registry w p = None then 1 else 0))"
proof (intro conjI impI)
  assume a: "init_dio None p w = (Ok h, w1)"
  note k = acquire_dio_keeps [OF init_dio_registered [OF a], of qs]
  from k show "init_dio None p (acquire_dio qs w1) = (Ok h, acquire_dio qs w1)"
    by (simp add: init_dio_None)
  from k init_dio_count [OF a]
  show "count_list (trace (acquire_dio qs w1)) (New_DigitalInOut p) =
        count_list (trace w) (New_DigitalInOut p) + (if dio_registry w p = None then 1 else 0)"
    by simp
next
  assume a: "init_ain None p w = (Ok h, w1)"
  note k = acquire_ain_keeps [OF init_ain_registered [OF a], of qs]
  from k show "init_ain None p (acquire_ain qs w1) = (Ok h, acquire_ain qs w1)"
    by (simp add: init_ain_None)
  from k init_ain_count [OF a]
  show "count_list (trace (acquire_ain qs w1)) (New_AnalogIn p) =
        count_list (trace w) (New_AnalogIn p) + (if ain_registry w p = None then 1 else 0)"
    by simp
qed

theorem C3_registry_idempotent_witness:
  "init_dio None (Pin 18) demo_world = (Ok 0, snd (init_dio None (Pin 18) demo_world)) \<and>
   fst (init_dio None (Pin 18)
     (acquire_dio [Pin 23, Pin 18, Pin 5] (snd (init_dio None (Pin 18) demo_world)))) = Ok 0 \<and>
   count_list
     (trace (acquire_dio [Pin 23, Pin 18, Pin 5] (snd (init_dio None (Pin 18) demo_world))))
     (New_DigitalInOut (Pin 18)) = 1 \<and>
   init_ain None (Pin 36) demo_world = (Ok 0, snd (init_ain None (Pin 36) demo_world)) \<and>
   fst (init_ain None (Pin 36)
     (acquire_ain [Pin 39, Pin 36] (snd (init_ain None (Pin 36) demo_world)))) = Ok 0 \<and>
   count_list
     (trace (acquire_ain [Pin 39, Pin 36] (snd (init_ain None (Pin 36) demo_world))))
     (New_AnalogIn (Pin 36)) = 1"
proof -
  have d: "init_dio None (Pin 18) demo_world = (Ok 0, snd (init_dio None (Pin 18) demo_world))"
    by (simp add: init_dio_None demo_world_def)
  have a: "init_ain None (Pin 36) demo_world = (Ok 0, snd (init_ain None (Pin 36) demo_world))"
    by (simp add: init_ain_None demo_world_def)
  have t: "trace demo_world = []" "dio_registry demo_world (Pin 18) = None"
    "ain_registry demo_world (Pin 36) = None"
    by (simp_all add: demo_world_def)
  from C3_registry_idempotent [of "Pin 18" demo_world 0 "snd (init_dio None (Pin 18) demo_world)"
      "[Pin 23, Pin 18, Pin 5]"] d
  have 1: "fst (init_dio None (Pin 18)
       (acquire_dio [Pin 23, Pin 18, Pin 5] (snd (init_dio None (Pin 18) demo_world)))) = Ok 0"
    and 2: "count_list
       (trace (acquire_dio [Pin 23, Pin 18, Pin 5] (snd (init_dio None (Pin 18) demo_world))))
       (New_DigitalInOut (Pin 18)) = 1"
    by (simp_all add: t)
  from C3_registry_idempotent [of "Pin 36" demo_world 0 "snd (init_ain None (Pin 36) demo_world)"
      "[Pin 39, Pin 36]"] a
  have 3: "fst (init_ain None (Pin 36)
       (acquire_ain [Pin 39, Pin 36] (snd (init_ain None (Pin 36) demo_world)))) = Ok 0"
    and 4: "count_list
       (trace (acquire_ain [Pin 39, Pin 36] (snd (init_ain None (Pin 36) demo_world))))
       (New_AnalogIn (Pin 36)) = 1"
    by (simp_all add: t)
  from d 1 2 a 3 4 show ?thesis by (intro conjI)
qed

section \<open>The outcomes of the configuration file\<close>

subsection \<open>The direction field is compared without regard to case\<close>

lemma upper_char_eq:
  "(upper_char c = CHR ''I'') = (c = CHR ''I'' \<or> c = CHR ''i'')"
  "(upper_char c = CHR ''N'') = (c = CHR ''N'' \<or> c = CHR ''n'')"
  "(upper_char c = CHR ''O'') = (c = CHR ''O'' \<or> c = CHR ''o'')"
  "(upper_char c = CHR ''U'') = (c = CHR ''U'' \<or> c = CHR ''u'')"
  "(upper_char c = CHR ''T'') = (c = CHR ''T'' \<or> c = CHR ''t'')"
  by (auto simp: upper_char_def split: option.splits if_splits)

lemma upper_IN_iff:
  "(upper s = ''IN'') = (\<exists>a b. s = [a, b] \<and> a \<in> {CHR ''I'', CHR ''i''} \<and> b \<in> {CHR ''N'', CHR ''n''})"
proof (cases s)
  case Nil
  then show ?thesis by (simp add: upper_def)
next
  case (Cons a s1)
  show ?thesis
  proof (cases s1)
    case Nil
    with Cons show ?thesis by (simp add: upper_def)
  next
    case (Cons b s2)
    with \<open>s = a # s1\<close> show ?thesis
      by (cases s2) (auto simp: upper_def upper_char_eq)
  qed
qed

lemma upper_OUT_iff:
  "(upper s = ''OUT'') =
     (\<exists>a b c. s = [a, b, c] \<and> a \<in> {CHR ''O'', CHR ''o''} \<and> b \<in> {CHR ''U'', CHR ''u''} \<and>
        c \<in> {CHR ''T'', CHR ''t''})"
proof (cases s)
  case Nil
  then show ?thesis by (simp add: upper_def)
next
  case (Cons a s1)
  show ?thesis
  proof (cases s1)
    case Nil
    with Cons show ?thesis by (simp add: upper_def)
  next
    case (Cons b s2)
    show ?thesis
    proof (cases s2)
      case Nil
      with Cons \<open>s = a # s1\<close> show ?thesis by (simp add: upper_def)
    next
      case (Cons c s3)
      with \<open>s1 = b # s2\<close> \<open>s = a # s1\<close> show ?thesis
        by (cases s3) (auto simp: upper_def upper_char_eq)
    qed
  qed
qed

subsection \<open>The loader of \<^verbatim>\<open>PixelKit\<close>, outcome by outcome\<close>

lemma try_except_Ok: "m s = (Ok x, s') \<Longrightarrow> try_except m hs s = (Ok x, s')"
  by (simp add: try_except_def)

lemma try_except_Raise: "m s = (Raise e, s') \<Longrightarrow> try_except m hs s = handle_exn hs e s'"
  by (simp add: try_except_def)

lemma load_pause_Missing_file:
  assumes "config_outcome w fn = Missing_file"
  shows "load_pause_from_file fn w = (Ok None, w)"
proof -
  from assms have "files w fn = None"
    by (auto simp: config_outcome_def split: option.splits if_splits)
  then show ?thesis
    by (simp add: load_pause_from_file_def try_except_def seq_def open_readline_def
        is_OSError_def ret_def)
qed

lemma load_pause_Empty_line:
  assumes "config_outcome w fn = Empty_line"
  shows "load_pause_from_file fn w =
       (Ok None, w\<lparr>trace := trace w @ [Print [Str ''Pause config empty -> no pause button'']]\<rparr>)"
proof -
  from assms obtain content where "files w fn = Some content" "strip (readline content) = []"
    by (auto simp: config_outcome_def split: option.splits if_splits)
  then show ?thesis
    by (simp add: load_pause_from_file_def try_except_def seq_def open_readline_def
        ret_def print_def emit_def)
qed

lemma load_pause_Wrong_field_count:
  assumes "config_outcome w fn = Wrong_field_count"
  shows "load_pause_from_file fn w =
       (Ok None, w\<lparr>trace := trace w @ [Print [Str ''Pause config malformed -> no pause button'']]\<rparr>)"
proof -
  from assms obtain content where "files w fn = Some content" "strip (readline content) \<noteq> []"
    "length (config_fields content) \<noteq> 2"
    by (auto simp: config_outcome_def split: option.splits if_splits)
  then show ?thesis
    by (simp add: load_pause_from_file_def config_fields_def try_except_def seq_def
        open_readline_def ret_def print_def emit_def)
qed

lemma load_pause_Unknown_pin:
  assumes "config_outcome w fn = Unknown_pin"
  shows "\<exists>msg. load_pause_from_file fn w = (Ok None, w\<lparr>trace := trace w @ [Print msg]\<rparr>)"
proof -
  from assms obtain content where "files w fn = Some content" "strip (readline content) \<noteq> []"
    "length (config_fields content) = 2" "board w (config_pin_name content) = None"
    by (auto simp: config_outcome_def split: option.splits if_splits)
  then have "load_pause_from_file fn w =
      (Ok None, w\<lparr>trace := trace w @
         [Print [Str ''Pause config pin not found on this board:'',
                 Str (config_pin_name content)]]\<rparr>)"
    by (simp add: load_pause_from_file_def config_fields_def config_pin_name_def try_except_def
        seq_def open_readline_def board_getattr_def is_AttributeError_def ret_def print_def
        emit_def Let_def)
  then show ?thesis by blast
qed

lemma load_pause_body:
  assumes "files w fn = Some content" and "strip (readline content) \<noteq> []"
    and "length (config_fields content) = 2"
    and "board w (config_pin_name content) = Some p"
  shows "load_pause_from_file fn w =
    try_except
      (seq (init_dio None p) (\<lambda>dio.
       seq (if config_direction content = ''IN'' then
              seq (set_direction dio INPUT) (\<lambda>_.
              seq (set_pull dio (Some UP)) (\<lambda>_. ret True))
            else if config_direction content = ''OUT'' then
              seq (set_direction dio OUTPUT) (\<lambda>_. ret True)
            else
              seq (print [Str ''Pause config invalid direction:'',
                          Str (config_direction content)])
                (\<lambda>_. ret False))
         (\<lambda>valid.
            if \<not> valid then ret None
            else
              seq (print [Str ''Pause button from config:'', Str (config_pin_name content),
                          Str (config_direction content)])
                (\<lambda>_. ret (Some dio)))))
      [(is_OSError, \<lambda>_. ret None),
       (is_Exception, \<lambda>e. seq (print [Str ''Pause config error:'', Exc e]) (\<lambda>_. ret None))] w"
  using assms
  by (simp add: load_pause_from_file_def config_fields_def config_pin_name_def
      config_direction_def try_except_def seq_def
      open_readline_def board_getattr_def ret_def Let_def cong: if_cong)

lemma config_outcome_Invalid_direction:
  assumes "config_outcome w fn = Invalid_direction p"
  shows "\<exists>content. files w fn = Some content \<and> strip (readline content) \<noteq> [] \<and>
    length (config_fields content) = 2 \<and> board w (config_pin_name content) = Some p \<and>
    config_direction content \<noteq> ''IN'' \<and> config_direction content \<noteq> ''OUT''"
proof (cases "files w fn")
  case None
  with assms show ?thesis by (simp add: config_outcome_def)
next
  case (Some content)
  show ?thesis
  proof (cases "board w (config_pin_name content)")
    case None
    with assms Some show ?thesis by (simp add: config_outcome_def split: if_splits)
  next
    case (Some p')
    with assms \<open>files w fn = Some content\<close> show ?thesis
      by (simp add: config_outcome_def split: if_splits)
  qed
qed

lemma config_outcome_Well_formed:
  assumes "config_outcome w fn = Well_formed p d"
  shows "\<exists>content. files w fn = Some content \<and> strip (readline content) \<noteq> [] \<and>
    length (config_fields content) = 2 \<and> board w (config_pin_name content) = Some p \<and>
    (if d = INPUT then config_direction content = ''IN''
     else config_direction content \<noteq> ''IN'' \<and> config_direction content = ''OUT'')"
proof (cases "files w fn")
  case None
  with assms show ?thesis by (simp add: config_outcome_def)
next
  case (Some content)
  show ?thesis
  proof (cases "board w (config_pin_name content)")
    case None
    with assms Some show ?thesis by (simp add: config_outcome_def split: if_splits)
  next
    case (Some p')
    with assms \<open>files w fn = Some content\<close> show ?thesis
      by (cases d) (simp_all add: config_outcome_def split: if_splits)
  qed
qed

lemma init_dio_raises: "init_dio None p w = (Raise e, w') \<Longrightarrow> e = HardwareError \<and> w' = w"
  by (cases "dio_registry w p") (simp_all add: init_dio_None split: if_splits)

lemma load_pause_Invalid_direction:
  assumes "config_outcome w fn = Invalid_direction p" and "init_dio None p w = (Ok h, w1)"
  shows "\<exists>msg. load_pause_from_file fn w = (Ok None, w1\<lparr>trace := trace w1 @ [Print msg]\<rparr>)"
proof -
  from config_outcome_Invalid_direction [OF assms(1)]
  obtain content where c: "files w fn = Some content"
    "strip (readline content) \<noteq> []" "length (config_fields content) = 2"
    "board w (config_pin_name content) = Some p"
    and d: "config_direction content \<noteq> ''IN''" "config_direction content \<noteq> ''OUT''"
    by blast
  have "load_pause_from_file fn w =
      (Ok None, w1\<lparr>trace := trace w1 @
         [Print [Str ''Pause config invalid direction:'', Str (config_direction content)]]\<rparr>)"
    unfolding load_pause_body [OF c] try_except_def
    by (subst seq_Ok [where m = "init_dio None p" and s = w, OF assms(2)])
      (simp add: d seq_def ret_def print_def emit_def)
  then show ?thesis by blast
qed

lemma load_pause_Well_formed:
  assumes "config_outcome w fn = Well_formed p d" and "init_dio None p w = (Ok h, w1)"
  shows "\<exists>msg. load_pause_from_file fn w =
      (Ok (Some h),
       w1\<lparr>dio_direction := (dio_direction w1)(h := d),
          dio_pull := (if d = INPUT then (dio_pull w1)(h := Some UP) else dio_pull w1),
          trace := trace w1 @ [Print msg]\<rparr>)"
proof -
  from config_outcome_Well_formed [OF assms(1)]
  obtain content where c: "files w fn = Some content"
    "strip (readline content) \<noteq> []" "length (config_fields content) = 2"
    "board w (config_pin_name content) = Some p"
    and d: "if d = INPUT then config_direction content = ''IN''
     else config_direction content \<noteq> ''IN'' \<and> config_direction content = ''OUT''"
    by blast
  have "load_pause_from_file fn w =
      (Ok (Some h),
       w1\<lparr>dio_direction := (dio_direction w1)(h := d),
          dio_pull := (if d = INPUT then (dio_pull w1)(h := Some UP) else dio_pull w1),
          trace := trace w1 @
            [Print [Str ''Pause button from config:'', Str (config_pin_name content),
                    Str (config_direction content)]]\<rparr>)"
    unfolding load_pause_body [OF c] try_except_def
    apply (subst seq_Ok [where m = "init_dio None p" and s = w, OF assms(2)])
    using d
    apply (cases d)
     apply (simp_all add: seq_def ret_def print_def emit_def set_direction_def set_pull_def)
    done
  then show ?thesis by blast
qed

lemma load_pause_refused:
  assumes "config_outcome w fn = Invalid_direction p \<or> config_outcome w fn = Well_formed p d"
    and "init_dio None p w = (Raise e, w1)"
  shows "load_pause_from_file fn w =
      (Ok None, w\<lparr>trace := trace w @ [Print [Str ''Pause config error:'', Exc HardwareError]]\<rparr>)"
proof -
  from assms(1) config_outcome_Invalid_direction [of w fn p] config_outcome_Well_formed [of w fn p d]
  obtain content where c: "files w fn = Some content"
    "strip (readline content) \<noteq> []" "length (config_fields content) = 2"
    "board w (config_pin_name content) = Some p"
    by blast
  from init_dio_raises [OF assms(2)] assms(2)
  have r: "init_dio None p w = (Raise HardwareError, w)" by simp
  show ?thesis
    unfolding load_pause_body [OF c] try_except_def
    by (subst seq_Raise [where m = "init_dio None p" and s = w, OF r])
      (simp add: is_OSError_def is_Exception_def seq_def ret_def print_def emit_def)
qed

section \<open>What a call leaves of the world\<close>

lemma grows_refl [simp]: "grows s s"
  by (simp add: grows_def)

lemma grows_trans: "grows s t \<Longrightarrow> grows t u \<Longrightarrow> grows s u"
  by (simp add: grows_def)

lemma grows_trace [simp]: "grows s (t\<lparr>trace := x\<rparr>) = grows s t"
  by (simp add: grows_def)

lemma grows_direction [simp]: "grows s (t\<lparr>dio_direction := x\<rparr>) = grows s t"
  by (simp add: grows_def)

lemma grows_pull [simp]: "grows s (t\<lparr>dio_pull := x\<rparr>) = grows s t"
  by (simp add: grows_def)

lemma stable_grows: "stable (grows w0)"
  unfolding stable_def by (blast intro: grows_trans)

lemma stable_dio_registry: "stable (\<lambda>s. dio_registry s p = Some h)"
  by (simp add: stable_def grows_def)

lemma frames_board_getattr: "frames (board_getattr n)"
  by (auto simp: frames_def board_getattr_def split: option.splits)

lemma frames_emit: "frames (emit e)"
  by (auto simp: frames_def emit_def)

lemma frames_get_ain_value: "frames (get_ain_value h)"
  by (auto simp: frames_def get_ain_value_def)

lemma frames_init_dio: "frames (init_dio i p)"
proof (cases i)
  case None
  show ?thesis
    unfolding frames_def None init_dio_None
    by (auto simp: grows_def split: option.splits if_splits)
next
  case (Some h)
  then show ?thesis by (simp add: frames_def init_dio_def)
qed

lemma frames_init_ain: "frames (init_ain i p)"
proof (cases i)
  case None
  show ?thesis
    unfolding frames_def None init_ain_None
    by (auto simp: grows_def split: option.splits if_splits)
next
  case (Some h)
  then show ?thesis by (simp add: frames_def init_ain_def)
qed

lemma init_dio_grows: "init_dio i p w = (r, w') \<Longrightarrow> grows w w'"
  using frames_init_dio [of i p] by (simp add: frames_def)

lemma frames_load_pause: "frames (load_pause_from_file fn)"
  unfolding frames_def
proof (intro allI impI)
  fix s r s'
  assume l: "load_pause_from_file fn s = (r, s')"
  show "grows s s'"
  proof (cases "config_outcome s fn")
    case Missing_file
    from load_pause_Missing_file [OF this] l show ?thesis by simp
  next
    case Empty_line
    from load_pause_Empty_line [OF this] l show ?thesis by auto
  next
    case Wrong_field_count
    from load_pause_Wrong_field_count [OF this] l show ?thesis by auto
  next
    case Unknown_pin
    from load_pause_Unknown_pin [OF this] l show ?thesis by auto
  next
    case (Invalid_direction p)
    show ?thesis
    proof (cases "init_dio None p s")
      case (Pair r1 s1)
      show ?thesis
      proof (cases r1)
        case (Ok h)
        from load_pause_Invalid_direction [OF Invalid_direction Pair [unfolded Ok]] l
          init_dio_grows [OF Pair]
        show ?thesis by auto
      next
        case (Raise e)
        from load_pause_refused [OF disjI1 [OF Invalid_direction] Pair [unfolded Raise]] l
        show ?thesis by auto
      qed
    qed
  next
    case (Well_formed p d)
    show ?thesis
    proof (cases "init_dio None p s")
      case (Pair r1 s1)
      show ?thesis
      proof (cases r1)
        case (Ok h)
        from load_pause_Well_formed [OF Well_formed Pair [unfolded Ok]] l
          init_dio_grows [OF Pair]
        show ?thesis by auto
      next
        case (Raise e)
        from load_pause_refused [OF disjI2 [OF Well_formed] Pair [unfolded Raise]] l
        show ?thesis by auto
      qed
    qed
  qed
qed



lemma frames_ret: "frames (ret x)"
  by (simp add: frames_def ret_def)

lemma frames_pause_arg:
  "frames (case p of Some h \<Rightarrow> ret (Some h) | None \<Rightarrow> load_pause_from_file fn)"
  by (cases p) (simp_all add: frames_ret frames_load_pause)

lemma stable_True: "stable (\<lambda>_. True)"
  by (simp add: stable_def)

lemma if_returns_seq:
  assumes "frames m" and "stable I" and "\<And>x. if_returns I (f x) Q"
  shows "if_returns I (seq m f) Q"
  unfolding if_returns_def
proof (intro allI impI)
  fix s y t
  assume I: "I s" and r: "seq m f s = (Ok y, t)"
  from r obtain x s' where m: "m s = (Ok x, s')" and f: "f x s' = (Ok y, t)"
    by (auto simp: seq_def split: prod.splits result.splits)
  from assms(1) m have "grows s s'" by (simp add: frames_def)
  with assms(2) I have "I s'" by (auto simp: stable_def)
  with assms(3) [of x] f show "Q y t" by (auto simp: if_returns_def)
qed

lemma if_returns_ret: "(\<And>s. I s \<Longrightarrow> Q x s) \<Longrightarrow> if_returns I (ret x) Q"
  by (simp add: if_returns_def ret_def)

lemma if_returns_acquire:
  assumes "board w0 n = Some p"
    and "\<And>h. if_returns (\<lambda>s. dio_registry s p = Some h) (f h) Q"
  shows "if_returns (grows w0) (seq (board_getattr n) (\<lambda>q. seq (init_dio None q) f)) Q"
  unfolding if_returns_def
proof (intro allI impI)
  fix s y t
  assume I: "grows w0 s" and r: "seq (board_getattr n) (\<lambda>q. seq (init_dio None q) f) s = (Ok y, t)"
  from I assms(1) have "board_getattr n s = (Ok p, s)"
    by (simp add: board_getattr_def grows_def)
  with r have "seq (init_dio None p) f s = (Ok y, t)" by (simp add: seq_def)
  then obtain h s' where i: "init_dio None p s = (Ok h, s')" and f: "f h s' = (Ok y, t)"
    by (auto simp: seq_def split: prod.splits result.splits)
  from init_dio_registered [OF i] assms(2) [of h] f show "Q y t"
    by (auto simp: if_returns_def)
qed

lemmas frames_leaves =
  frames_board_getattr frames_emit frames_get_ain_value frames_init_dio frames_init_ain
  frames_pause_arg

lemma PixelKit_init_flags:
  assumes "PixelKit_init a w = (Ok self, w')"
  shows "flags self = initial_flags"
proof -
  have "if_returns (\<lambda>_. True) (PixelKit_init a) (\<lambda>k s. flags k = initial_flags)"
    unfolding PixelKit_init_def
    by (intro if_returns_seq frames_leaves stable_True if_returns_ret) simp
  with assms show ?thesis unfolding if_returns_def by blast
qed

lemma PixelKit_init_reset:
  assumes "PixelKit_init a w = (Ok self, w')" and "arg_button_reset a = None"
    and "board w ''D5'' = Some d5"
  shows "dio_registry w' d5 = Some (button_reset self)"
proof -
  have "if_returns (grows w) (PixelKit_init a)
      (\<lambda>k s. dio_registry s d5 = Some (button_reset k))"
    unfolding PixelKit_init_def assms(2)
    apply (rule if_returns_seq [OF frames_board_getattr stable_grows])
    apply (rule if_returns_seq [OF frames_emit stable_grows])
    apply (rule if_returns_seq [OF frames_emit stable_grows])
    apply (rule if_returns_seq [OF frames_pause_arg stable_grows])
    apply (rule if_returns_seq [OF frames_board_getattr stable_grows])
    apply (rule if_returns_seq [OF frames_init_dio stable_grows])
    apply (rule if_returns_seq [OF frames_board_getattr stable_grows])
    apply (rule if_returns_seq [OF frames_init_dio stable_grows])
    apply (rule if_returns_acquire [OF assms(3)])
    apply (intro if_returns_seq frames_leaves stable_dio_registry if_returns_ret)
    apply simp
    done
  with assms(1) grows_refl [of w] show ?thesis unfolding if_returns_def by blast
qed














section \<open>The configuration loaders\<close>

subsection \<open>The loader of \<^verbatim>\<open>PauseButton\<close>, outcome by outcome\<close>







subsection \<open>The outcomes on the demo board\<close>



lemma PixelKit_init_demo: "fst (PixelKit_init default_args demo_world) = Ok demo_kit"
  by (simp add: PixelKit_init_def default_args_def demo_world_def demo_kit_def seq_def
      board_getattr_def emit_def load_pause_from_file_def try_except_def open_readline_def
      strip_def is_space_def upper_def upper_char_def print_def ret_def init_dio_None
      init_ain_None get_ain_value_def set_direction_def set_pull_def Let_def)

subsection \<open>Rejected configurations\<close>




subsection \<open>Well-formed configurations\<close>









section \<open>The pressed flags and the reset button\<close>

lemma flags_defined_initial: "flags self = initial_flags \<Longrightarrow> flags_defined self"
  by (auto simp: flags_defined_def digital_inputs_def flag_name_def initial_flags_def)

lemma flags_defined_poll_flags: "flags_defined (self\<lparr>flags := poll_flags self w\<rparr>)"
  by (auto simp: flags_defined_def digital_inputs_def flag_name_def poll_flags_def)




lemma dio_reads_append [simp]: "dio_reads (xs @ ys) = dio_reads xs @ dio_reads ys"
  by (induction xs rule: dio_reads.induct) simp_all

lemma dio_reads_scan_digital: "set (dio_reads (scan_digital self w i)) = {input_handle self i}"
  by (simp add: scan_digital_def Let_def)

lemma dio_reads_scan_analog: "dio_reads (scan_analog w hook h stored) = []"
  by (simp add: scan_analog_def)

lemma dio_reads_scan_pause:
  "dio_reads (scan_pause self w) = (case pause self of None \<Rightarrow> [] | Some p \<Rightarrow> [p])"
  by (cases "pause self") (simp_all add: scan_pause_def)

lemma dio_reads_poll_events: "set (dio_reads (poll_events self w)) = set (polled_handles self)"
  by (cases "pause self")
    (auto simp: poll_events_def polled_handles_def digital_inputs_def dio_reads_scan_digital
      dio_reads_scan_analog dio_reads_scan_pause)

lemma flags_defined_button_reset [simp]:
  "flags_defined (self\<lparr>button_reset := h\<rparr>) = flags_defined self"
  by (simp add: flags_defined_def)

lemma poll_button_reset:
  "poll_flags (self\<lparr>button_reset := h\<rparr>) w = poll_flags self w"
  "poll_events (self\<lparr>button_reset := h\<rparr>) w = poll_events self w"
  "pause_pressed (self\<lparr>button_reset := h\<rparr>) w = pause_pressed self w"
  by (simp_all add: poll_flags_def poll_events_def pause_pressed_def scan_digital_def
      scan_pause_def input_handle_def)

lemma PixelKit_init_reset_as_pause:
  "fst (PixelKit_init reset_as_pause_args demo_world) = Ok reset_as_pause_kit"
  by (simp add: PixelKit_init_def reset_as_pause_args_def default_args_def demo_world_def
      reset_as_pause_kit_def seq_def
      board_getattr_def emit_def load_pause_from_file_def try_except_def open_readline_def
      strip_def is_space_def upper_def upper_char_def print_def ret_def init_dio_None
      init_ain_None get_ain_value_def set_direction_def set_pull_def Let_def)

lemma Get_dio_value_dio_reads: "(Get_dio_value x \<in> set evs) = (x \<in> set (dio_reads evs))"
  by (induction evs rule: dio_reads.induct) auto

text \<open>
  Claim C10, as the code has it. A construction without \<^verbatim>\<open>button_reset\<close> argument stores
  its reset handle in the digital registry under the pin \<^verbatim>\<open>D5\<close>. A call of
  \<^verbatim>\<open>check_controls\<close> does not depend on the attribute \<^verbatim>\<open>button_reset\<close> and does not
  change it, and every hook it calls is one of the nine hooks of the class, none of which
  belongs to the reset button. The digital handles it reads are those of the seven
  inputs and the pause handle: it reads the reset handle iff that handle is one of
  these as well.
\<close>

theorem C10_reset_button:
  "(PixelKit_init a w0 = (Ok self0, w1) \<and> arg_button_reset a = None \<and>
      board w0 ''D5'' = Some d5 \<longrightarrow>
      dio_registry w1 d5 = Some (button_reset self0) \<and> flags_defined self0)
   \<and> (flags_defined self \<longrightarrow>
      check_controls (self\<lparr>button_reset := h\<rparr>, w) =
        with_button_reset h (check_controls (self, w)) \<and>
      button_reset (fst (snd (check_controls (self, w)))) = button_reset self \<and>
      set (dio_reads (drop (length (trace w)) (trace (snd (snd (check_controls (self, w))))))) =
        set (polled_handles self) \<and>
      (Get_dio_value (button_reset self) \<in>
         set (drop (length (trace w)) (trace (snd (snd (check_controls (self, w)))))))
        = (button_reset self \<in> set (polled_handles self)) \<and>
      set (called_hooks (drop (length (trace w)) (trace (snd (snd (check_controls (self, w)))))))
        \<subseteq> set event_hooks \<and>
      flags_defined (fst (snd (check_controls (self, w)))))"
proof (intro conjI impI)
  assume a: "PixelKit_init a w0 = (Ok self0, w1) \<and> arg_button_reset a = None \<and>
      board w0 ''D5'' = Some d5"
  then show "dio_registry w1 d5 = Some (button_reset self0)"
    using PixelKit_init_reset [of a w0 self0 w1 d5] by simp
  from a show "flags_defined self0"
    using flags_defined_initial [OF PixelKit_init_flags, of a w0 self0 w1] by simp
next
  assume fd: "flags_defined self"
  note c = check_controls_closed [OF fd, of w]
  have "flags_defined (self\<lparr>button_reset := h\<rparr>)" using fd by simp
  from check_controls_closed [OF this, of w]
  show "check_controls (self\<lparr>button_reset := h\<rparr>, w) =
        with_button_reset h (check_controls (self, w))"
    by (simp add: c poll_button_reset with_button_reset_def)
  show "button_reset (fst (snd (check_controls (self, w)))) = button_reset self"
    by (simp add: c)
  show "set (dio_reads (drop (length (trace w)) (trace (snd (snd (check_controls (self, w))))))) =
        set (polled_handles self)"
    by (simp add: c dio_reads_poll_events)
  show "(Get_dio_value (button_reset self) \<in>
         set (drop (length (trace w)) (trace (snd (snd (check_controls (self, w)))))))
        = (button_reset self \<in> set (polled_handles self))"
    by (simp add: c Get_dio_value_dio_reads dio_reads_poll_events)
  show "set (called_hooks (drop (length (trace w)) (trace (snd (snd (check_controls (self, w)))))))
        \<subseteq> set event_hooks"
    by (simp add: c called_hooks_poll_events)
  from flags_defined_poll_flags [of self w]
  show "flags_defined (fst (snd (check_controls (self, w))))"
    by (simp add: c flags_defined_def)
qed

theorem C10_reset_button_witness:
  "PixelKit_init default_args demo_world =
     (Ok demo_kit, snd (PixelKit_init default_args demo_world)) \<and>
   arg_button_reset default_args = None \<and> board demo_world ''D5'' = Some (Pin 5) \<and>
   dio_registry (snd (PixelKit_init default_args demo_world)) (Pin 5) = Some 3 \<and>
   button_reset demo_kit = 3 \<and> flags_defined demo_kit \<and>
   set (dio_reads (trace (snd (snd (check_controls (demo_kit, demo_levels)))))) =
     {4, 5, 6, 7, 8, 1, 2, 0} \<and>
   Get_dio_value 3 \<notin> set (trace (snd (snd (check_controls (demo_kit, demo_levels))))) \<and>
   ''on_button_reset'' \<notin> set event_hooks"
proof -
  have i: "PixelKit_init default_args demo_world =
     (Ok demo_kit, snd (PixelKit_init default_args demo_world))"
    using PixelKit_init_demo by (cases "PixelKit_init default_args demo_world") simp
  have b: "arg_button_reset default_args = None" "board demo_world ''D5'' = Some (Pin 5)"
    "button_reset demo_kit = 3" "trace demo_levels = []"
    by (simp_all add: default_args_def demo_world_def demo_kit_def demo_levels_def)
  note t = C10_reset_button [of default_args demo_world demo_kit
      "snd (PixelKit_init default_args demo_world)" "Pin 5" demo_kit 3 demo_levels]
  from t i b have 1: "dio_registry (snd (PixelKit_init default_args demo_world)) (Pin 5) = Some 3"
    and 2: "flags_defined demo_kit"
    by simp_all
  from t 2 b have 3: "set (dio_reads (trace (snd (snd (check_controls (demo_kit, demo_levels)))))) =
     {4, 5, 6, 7, 8, 1, 2, 0}"
    by (simp add: polled_handles_def digital_inputs_def input_handle_def demo_kit_def)
  from t 2 b have 4: "Get_dio_value 3 \<notin> set (trace (snd (snd (check_controls (demo_kit, demo_levels)))))"
    by (simp add: polled_handles_def digital_inputs_def input_handle_def demo_kit_def)
  have 5: "''on_button_reset'' \<notin> set event_hooks" by (simp add: event_hooks_def)
  from i b(1,2) 1 b(3) 2 3 4 5 show ?thesis by (intro conjI)
qed

text \<open>
  Claim C10 as stated fails where the reset handle serves another role: with the
  configuration \<^verbatim>\<open>D5,IN\<close> the registry gives the one handle of \<^verbatim>\<open>D5\<close> to the pause check
  and to \<^verbatim>\<open>button_reset\<close>, and every poll cycle reads it.
\<close>

theorem C10_reset_button_counterexample:
  "fst (PixelKit_init reset_as_pause_args demo_world) = Ok reset_as_pause_kit \<and>
   pause reset_as_pause_kit = Some (button_reset reset_as_pause_kit) \<and>
   Get_dio_value (button_reset reset_as_pause_kit) \<in>
     set (drop (length (trace (snd (PixelKit_init reset_as_pause_args demo_world))))
       (trace (snd (snd (check_controls
          (reset_as_pause_kit, snd (PixelKit_init reset_as_pause_args demo_world)))))))"
proof -
  have fd: "flags_defined reset_as_pause_kit"
    by (rule flags_defined_initial) (simp add: reset_as_pause_kit_def)
  have p: "pause reset_as_pause_kit = Some (button_reset reset_as_pause_kit)"
    by (simp add: reset_as_pause_kit_def)
  then have "Get_dio_value (button_reset reset_as_pause_kit) \<in>
      set (scan_pause reset_as_pause_kit w)" for w
    by (simp add: scan_pause_def)
  then have "Get_dio_value (button_reset reset_as_pause_kit) \<in>
      set (poll_events reset_as_pause_kit w)" for w
    by (simp add: poll_events_def)
  then have "Get_dio_value (button_reset reset_as_pause_kit) \<in>
     set (drop (length (trace w)) (trace (snd (snd (check_controls (reset_as_pause_kit, w))))))"
    for w
    by (simp add: check_controls_closed [OF fd])
  with PixelKit_init_reset_as_pause p show ?thesis by simp
qed

end
